theory Spec2Isabelle
  imports Complex_Main
begin

section \<open>Data model (types.ts)\<close>

text \<open>
  JavaScript numbers are modelled as real numbers (coordinates, speeds, time stamps);
  the number of lives and the score, which the program only ever changes by whole
  steps, are integers, and the two configured counts are natural numbers.
\<close>

record Vector2D =
  x :: real
  y :: real

record GameObject =
  position :: Vector2D
  velocity :: Vector2D
  radius :: real

record Player = GameObject +
  lives :: int
  lastShotTime :: real

text \<open>
  Enemy objects are shared: the enemy array and the \<open>targetEnemy\<close> field of a player
  bullet hold references to the same object. A reference is an address into a store of
  enemy objects.
\<close>

type_synonym enemy_ref = nat

record Enemy = GameObject +
  lastShotTime :: real
  targetChangeTime :: real
  targetPosition :: Vector2D

record Bullet = GameObject +
  isPlayerBullet :: bool
  targetEnemy :: "enemy_ref option"

datatype GameState = Playing | Paused | GameOver | GameClear

record GameConfig =
  canvasWidth :: real
  canvasHeight :: real
  playerSpeed :: real
  playerShootCooldown :: real
  playerBulletSpeed :: real
  playerLives :: int
  enemyCount :: nat
  enemySpeed :: real
  enemyShootInterval :: real
  enemyBulletSpeed :: real
  enemyBulletDirections :: nat
  scorePerEnemy :: int
  soundVolume :: real

section \<open>Geometry utilities (utils.ts)\<close>

definition distance :: "Vector2D \<Rightarrow> Vector2D \<Rightarrow> real" where
  "distance a b =
     (let dx = x a - x b; dy = y a - y b
      in sqrt (dx * dx + dy * dy))"

definition normalize :: "Vector2D \<Rightarrow> Vector2D" where
  "normalize v =
     (let len = sqrt (x v * x v + y v * y v)
      in if len = 0 then \<lparr>x = 0, y = 0\<rparr> else \<lparr>x = x v / len, y = y v / len\<rparr>)"

definition checkCollision :: "'a GameObject_scheme \<Rightarrow> 'b GameObject_scheme \<Rightarrow> bool" where
  "checkCollision a b \<longleftrightarrow> distance (position a) (position b) < radius a + radius b"

definition clamp :: "real \<Rightarrow> real \<Rightarrow> real \<Rightarrow> real" where
  "clamp val lo hi = max lo (min hi val)"

definition getDirectionVector :: "Vector2D \<Rightarrow> Vector2D \<Rightarrow> Vector2D" where
  "getDirectionVector from to = normalize \<lparr>x = x to - x from, y = y to - y from\<rparr>"

section \<open>High-score persistence (storage part of utils.ts)\<close>

text \<open>
  \<open>localStorage\<close> maps keys to strings. Only what \<open>JSON.parse\<close> makes of a stored
  string matters to the program, so a stored string is represented by its parse
  outcome: the empty string, a string that is not JSON (\<open>JSON.parse\<close> throws), JSON
  text for a value that is not an array, or JSON text for an array. An array entry is a
  number or any other JSON value (a string, a boolean, null, an array, an object), the
  latter given by its JSON text. \<open>JSON.stringify\<close> of an array of such entries yields
  JSON text that parses back to it.
\<close>

datatype json_entry = JNumber real | JNonNumber string

datatype json_value = JArray "json_entry list" | JNonArray

datatype stored_text = EmptyText | NotJSON | JSONText json_value

datatype js_error = SyntaxError

type_synonym local_storage = "string \<rightharpoonup> stored_text"

definition JSON_parse :: "stored_text \<Rightarrow> js_error + json_value" where
  "JSON_parse t = (case t of JSONText v \<Rightarrow> Inr v | _ \<Rightarrow> Inl SyntaxError)"

definition JSON_stringify :: "json_entry list \<Rightarrow> stored_text" where
  "JSON_stringify scores = JSONText (JArray scores)"

definition HIGH_SCORES_KEY :: string where
  "HIGH_SCORES_KEY = ''bulletHellHighScores''"

definition getHighScores :: "local_storage \<Rightarrow> json_entry list" where
  "getHighScores storage =
     (case storage HIGH_SCORES_KEY of
        None \<Rightarrow> [JNumber 0, JNumber 0, JNumber 0]
      | Some stored \<Rightarrow>
          if stored = EmptyText then [JNumber 0, JNumber 0, JNumber 0]
          else (case JSON_parse stored of
                  Inl err \<Rightarrow> [JNumber 0, JNumber 0, JNumber 0]
                | Inr scores \<Rightarrow>
                    (case scores of
                       JArray arr \<Rightarrow> arr
                     | JNonArray \<Rightarrow> [JNumber 0, JNumber 0, JNumber 0])))"

text \<open>The numbers of an array whose entries are all numbers.\<close>

fun numbersOf :: "json_entry list \<Rightarrow> real list option" where
  "numbersOf [] = Some []"
| "numbersOf (JNumber v # es) = map_option ((#) v) (numbersOf es)"
| "numbersOf (JNonNumber t # es) = None"

text \<open>
  \<open>scores.sort((a, b) => b - a)\<close>. On an array of numbers the comparison function
  is consistent and the result is the stable sort into descending order. With an entry
  that is not a number the subtraction may yield NaN, the comparison function is not
  consistent, and the language leaves the resulting order to the implementation: the
  result is then what the engine at hand makes of the array, a function \<open>engine\<close> that
  the environment supplies.
\<close>

definition sortDesc :: "(json_entry list \<Rightarrow> json_entry list) \<Rightarrow> json_entry list \<Rightarrow> json_entry list" where
  "sortDesc engine scores =
     (case numbersOf scores of
        Some vs \<Rightarrow> map JNumber (sort_key (\<lambda>v. - v) vs)
      | None \<Rightarrow> engine scores)"

definition saveHighScore ::
    "(json_entry list \<Rightarrow> json_entry list) \<Rightarrow> int \<Rightarrow> local_storage
       \<Rightarrow> json_entry list \<times> local_storage" where
  "saveHighScore engine newScore storage =
     (let scores = getHighScores storage @ [JNumber (of_int newScore)];
          topThree = take 3 (sortDesc engine scores)
      in (topThree, storage(HIGH_SCORES_KEY \<mapsto> JSON_stringify topThree)))"


section \<open>The game (game.ts)\<close>

text \<open>
  The configuration \<open>CONFIG\<close> is a parameter \<open>cfg\<close> of every operation. What the
  program reads from its environment during one handler run is collected in a record:
  the values returned by \<open>Date.now()\<close> at each call site and the values returned by
  \<open>Math.random()\<close> (indexed by the enemy being handled and the number of the draw),
  and what the engine's \<open>sort\<close> makes of a score array with an entry that is not a
  number.
  Calls to the audio module and to \<open>saveHighScore\<close> are recorded, in order, in the
  field \<open>events\<close>. Drawing on the canvas, the DOM overlay and score texts, and the
  scheduling of the next animation frame are not part of the model.
\<close>

record env =
  nowShoot :: real
  nowEnemies :: real
  nowStart :: real
  nowInit :: "nat \<Rightarrow> real"
  rndInit :: "nat \<Rightarrow> real"
  rnd :: "nat \<Rightarrow> nat \<Rightarrow> real"
  engineSort :: "json_entry list \<Rightarrow> json_entry list"

datatype event =
    PlayShoot | PlayHit | PlayDamage | PlayGameOver | PlayGameClear
  | StartBGM | StopBGM | SaveHighScore int

record Game =
  player :: Player
  enemyStore :: "enemy_ref \<Rightarrow> Enemy"
  allocated :: nat
  enemies :: "enemy_ref list"
  playerBullets :: "Bullet list"
  enemyBullets :: "Bullet list"
  state :: GameState
  score :: int
  keys :: "string set"
  gameStartTime :: real
  localStorage :: local_storage
  events :: "event list"

definition createPlayer :: "GameConfig \<Rightarrow> Player" where
  "createPlayer cfg =
     \<lparr>position = \<lparr>x = canvasWidth cfg / 2, y = canvasHeight cfg - 50\<rparr>,
      velocity = \<lparr>x = 0, y = 0\<rparr>,
      radius = 8,
      lives = playerLives cfg,
      lastShotTime = 0\<rparr>"

function initEnemiesLoop :: "GameConfig \<Rightarrow> env \<Rightarrow> nat \<Rightarrow> Game \<Rightarrow> Game" where
  "initEnemiesLoop cfg ev i g =
     (if i < enemyCount cfg then
        let ex = (canvasWidth cfg / (real (enemyCount cfg) + 1)) * (real i + 1);
            ey = 100 + rndInit ev i * 100;
            r = allocated g;
            enemy = \<lparr>position = \<lparr>x = ex, y = ey\<rparr>,
                     velocity = \<lparr>x = 0, y = 0\<rparr>,
                     radius = 15,
                     lastShotTime = 0,
                     targetChangeTime = nowInit ev i,
                     targetPosition = \<lparr>x = ex, y = ey\<rparr>\<rparr>
        in initEnemiesLoop cfg ev (i + 1)
             (g\<lparr>enemyStore := (enemyStore g)(r := enemy),
                allocated := r + 1,
                enemies := enemies g @ [r]\<rparr>)
      else g)"
  by pat_completeness auto
termination
  by (relation "measure (\<lambda>(cfg, ev, i, g). enemyCount cfg - i)") auto

declare initEnemiesLoop.simps [simp del]

definition initEnemies :: "GameConfig \<Rightarrow> env \<Rightarrow> Game \<Rightarrow> Game" where
  "initEnemies cfg ev g = initEnemiesLoop cfg ev 0 (g\<lparr>enemies := []\<rparr>)"

text \<open>\<open>getClosestEnemy\<close>: \<open>reduce\<close> without an initial value starts from the first element.\<close>

definition getClosestEnemy :: "Game \<Rightarrow> enemy_ref option" where
  "getClosestEnemy g =
     (case enemies g of
        [] \<Rightarrow> None
      | first # rest \<Rightarrow>
          Some (foldl (\<lambda>closest enemy.
                   let distToEnemy = distance (position (player g)) (position (enemyStore g enemy));
                       distToClosest = distance (position (player g)) (position (enemyStore g closest))
                   in if distToEnemy < distToClosest then enemy else closest)
                 first rest))"

definition shootPlayerBullet :: "GameConfig \<Rightarrow> env \<Rightarrow> Game \<Rightarrow> Game" where
  "shootPlayerBullet cfg ev g =
     (let now = nowShoot ev in
      if now - Player.lastShotTime (player g) < playerShootCooldown cfg then g
      else (case getClosestEnemy g of
              None \<Rightarrow> g
            | Some closestEnemy \<Rightarrow>
                g\<lparr>player := (player g)\<lparr>Player.lastShotTime := now\<rparr>,
                  playerBullets := playerBullets g @
                    [\<lparr>position = \<lparr>x = x (position (player g)), y = y (position (player g))\<rparr>,
                      velocity = \<lparr>x = 0, y = 0\<rparr>,
                      radius = 4,
                      isPlayerBullet = True,
                      targetEnemy = Some closestEnemy\<rparr>],
                  events := events g @ [PlayShoot]\<rparr>))"

definition updatePlayer :: "GameConfig \<Rightarrow> env \<Rightarrow> Game \<Rightarrow> Game" where
  "updatePlayer cfg ev g =
     (let dy0 = (if ''w'' \<in> keys g then - 1 else 0) + (if ''s'' \<in> keys g then 1 else 0);
          dx0 = (if ''a'' \<in> keys g then - 1 else 0) + (if ''d'' \<in> keys g then 1 else 0);
          len = sqrt (dx0 * dx0 + dy0 * dy0);
          dx = (if dx0 \<noteq> 0 \<or> dy0 \<noteq> 0 then (dx0 / len) * playerSpeed cfg else dx0);
          dy = (if dx0 \<noteq> 0 \<or> dy0 \<noteq> 0 then (dy0 / len) * playerSpeed cfg else dy0);
          p = player g;
          g1 = g\<lparr>player := p\<lparr>position :=
                  \<lparr>x = clamp (x (position p) + dx) (radius p) (canvasWidth cfg - radius p),
                   y = clamp (y (position p) + dy) (radius p) (canvasHeight cfg - radius p)\<rparr>\<rparr>\<rparr>
      in if ''m'' \<in> keys g then shootPlayerBullet cfg ev g1 else g1)"

function shootEnemyBulletsLoop :: "GameConfig \<Rightarrow> Enemy \<Rightarrow> real \<Rightarrow> nat \<Rightarrow> Game \<Rightarrow> Game" where
  "shootEnemyBulletsLoop cfg enemy angleStep i g =
     (if i < enemyBulletDirections cfg then
        let angle = angleStep * real i;
            bvx = cos angle * enemyBulletSpeed cfg;
            bvy = sin angle * enemyBulletSpeed cfg
        in shootEnemyBulletsLoop cfg enemy angleStep (i + 1)
             (g\<lparr>enemyBullets := enemyBullets g @
                  [\<lparr>position = \<lparr>x = x (position enemy), y = y (position enemy)\<rparr>,
                    velocity = \<lparr>x = bvx, y = bvy\<rparr>,
                    radius = 3,
                    isPlayerBullet = False,
                    targetEnemy = None\<rparr>]\<rparr>)
      else g)"
  by pat_completeness auto
termination
  by (relation "measure (\<lambda>(cfg, enemy, angleStep, i, g). enemyBulletDirections cfg - i)") auto

declare shootEnemyBulletsLoop.simps [simp del]

definition shootEnemyBullets :: "GameConfig \<Rightarrow> Enemy \<Rightarrow> Game \<Rightarrow> Game" where
  "shootEnemyBullets cfg enemy g =
     (let angleStep = (pi * 2) / real (enemyBulletDirections cfg)
      in shootEnemyBulletsLoop cfg enemy angleStep 0 g)"

text \<open>The body of the loop of \<open>updateEnemies\<close>, for the \<open>k\<close>-th enemy of the array.\<close>

definition updateEnemy :: "GameConfig \<Rightarrow> env \<Rightarrow> real \<Rightarrow> real \<Rightarrow> nat \<Rightarrow> enemy_ref \<Rightarrow> Game \<Rightarrow> Game" where
  "updateEnemy cfg ev now shootInterval k r g =
     (let e = enemyStore g r;
          e1 = (if now - targetChangeTime e > 2000 then
                  let random = rnd ev k 0
                  in e\<lparr>targetPosition :=
                         (if random < 0.5
                          then \<lparr>x = rnd ev k 1 * canvasWidth cfg,
                                y = rnd ev k 2 * (canvasHeight cfg / 2)\<rparr>
                          else \<lparr>x = x (position (player g)) + (rnd ev k 1 - 0.5) * 200,
                                y = y (position (player g)) - 200\<rparr>),
                       targetChangeTime := now\<rparr>
                else e);
          direction = getDirectionVector (position e1) (targetPosition e1);
          vel = \<lparr>x = x direction * enemySpeed cfg, y = y direction * enemySpeed cfg\<rparr>;
          e2 = e1\<lparr>velocity := vel,
                  position :=
                    \<lparr>x = clamp (x (position e1) + x vel) (radius e1) (canvasWidth cfg - radius e1),
                     y = clamp (y (position e1) + y vel) (radius e1) (canvasHeight cfg / 2)\<rparr>\<rparr>
      in if now - Enemy.lastShotTime e2 > shootInterval
         then (let g1 = shootEnemyBullets cfg e2 g
               in g1\<lparr>enemyStore := (enemyStore g1)(r := e2\<lparr>Enemy.lastShotTime := now\<rparr>)\<rparr>)
         else g\<lparr>enemyStore := (enemyStore g)(r := e2)\<rparr>)"

fun updateEnemiesLoop :: "GameConfig \<Rightarrow> env \<Rightarrow> real \<Rightarrow> real \<Rightarrow> nat \<Rightarrow> enemy_ref list \<Rightarrow> Game \<Rightarrow> Game" where
  "updateEnemiesLoop cfg ev now shootInterval k [] g = g"
| "updateEnemiesLoop cfg ev now shootInterval k (r # rs) g =
     updateEnemiesLoop cfg ev now shootInterval (k + 1) rs (updateEnemy cfg ev now shootInterval k r g)"

definition updateEnemies :: "GameConfig \<Rightarrow> env \<Rightarrow> Game \<Rightarrow> Game" where
  "updateEnemies cfg ev g =
     (let now = nowEnemies ev;
          elapsedTime = now - gameStartTime g;
          shootInterval = (if elapsedTime \<ge> 10000 then enemyShootInterval cfg / 2
                           else enemyShootInterval cfg)
      in updateEnemiesLoop cfg ev now shootInterval 0 (enemies g) g)"

text \<open>
  The two loops of \<open>updateBullets\<close> change each bullet in place; their bodies are the
  next two functions. The target of a player bullet is read through its reference.
\<close>

definition homePlayerBullet :: "GameConfig \<Rightarrow> (enemy_ref \<Rightarrow> Enemy) \<Rightarrow> Bullet \<Rightarrow> Bullet" where
  "homePlayerBullet cfg store bullet =
     (let b1 = (case targetEnemy bullet of
                  Some target \<Rightarrow>
                    let direction = getDirectionVector (position bullet) (position (store target))
                    in bullet\<lparr>velocity := \<lparr>x = x direction * playerBulletSpeed cfg,
                                             y = y direction * playerBulletSpeed cfg\<rparr>\<rparr>
                | None \<Rightarrow> bullet)
      in b1\<lparr>position := \<lparr>x = x (position b1) + x (velocity b1),
                           y = y (position b1) + y (velocity b1)\<rparr>\<rparr>)"

definition moveEnemyBullet :: "Bullet \<Rightarrow> Bullet" where
  "moveEnemyBullet bullet =
     bullet\<lparr>position := \<lparr>x = x (position bullet) + x (velocity bullet),
                           y = y (position bullet) + y (velocity bullet)\<rparr>\<rparr>"

definition updateBullets :: "GameConfig \<Rightarrow> Game \<Rightarrow> Game" where
  "updateBullets cfg g =
     (let pbs = map (homePlayerBullet cfg (enemyStore g)) (playerBullets g);
          ebs = map moveEnemyBullet (enemyBullets g)
      in g\<lparr>playerBullets :=
             filter (\<lambda>bullet. x (position bullet) \<ge> 0 \<and> x (position bullet) \<le> canvasWidth cfg
                             \<and> y (position bullet) \<ge> 0 \<and> y (position bullet) \<le> canvasHeight cfg) pbs,
           enemyBullets :=
             filter (\<lambda>bullet. x (position bullet) \<ge> - 10 \<and> x (position bullet) \<le> canvasWidth cfg + 10
                             \<and> y (position bullet) \<ge> - 10 \<and> y (position bullet) \<le> canvasHeight cfg + 10) ebs\<rparr>)"

definition gameOver :: "env \<Rightarrow> Game \<Rightarrow> Game" where
  "gameOver ev g =
     (let (highScores, storage) = saveHighScore (engineSort ev) (score g) (localStorage g)
      in g\<lparr>state := GameOver,
           events := events g @ [StopBGM, PlayGameOver, SaveHighScore (score g)],
           localStorage := storage\<rparr>)"

definition gameClear :: "env \<Rightarrow> Game \<Rightarrow> Game" where
  "gameClear ev g =
     (let livesBonus = lives (player g) * 100;
          finalScore = score g + livesBonus;
          (highScores, storage) = saveHighScore (engineSort ev) finalScore (localStorage g)
      in g\<lparr>state := GameClear,
           events := events g @ [StopBGM, PlayGameClear, SaveHighScore finalScore],
           localStorage := storage\<rparr>)"

text \<open>\<open>xs.splice(i, 1)\<close> removes the element at index \<open>i\<close>.\<close>

definition splice1 :: "nat \<Rightarrow> 'a list \<Rightarrow> 'a list" where
  "splice1 i xs = take i xs @ drop (Suc i) xs"

text \<open>
  The loops of \<open>checkCollisions\<close> run their index downwards from the last element. In
  the functions below the first argument is the number of indices still to visit, so
  \<open>Suc i\<close> means that index \<open>i\<close> is visited next. The inner loops return the index
  at which they \<open>break\<close>, if they do. The body of each outer loop, at index \<open>i\<close>, is a
  function of its own.
\<close>

fun findEnemyHit :: "Bullet \<Rightarrow> (enemy_ref \<Rightarrow> Enemy) \<Rightarrow> enemy_ref list \<Rightarrow> nat \<Rightarrow> nat option" where
  "findEnemyHit bullet store es 0 = None"
| "findEnemyHit bullet store es (Suc j) =
     (if checkCollision bullet (store (es ! j)) then Some j
      else findEnemyHit bullet store es j)"

definition hitEnemyAt :: "GameConfig \<Rightarrow> nat \<Rightarrow> Game \<Rightarrow> Game" where
  "hitEnemyAt cfg i g =
     (let bullet = playerBullets g ! i
      in case findEnemyHit bullet (enemyStore g) (enemies g) (length (enemies g)) of
           None \<Rightarrow> g
         | Some j \<Rightarrow>
             g\<lparr>playerBullets := splice1 i (playerBullets g),
               enemies := splice1 j (enemies g),
               score := score g + scorePerEnemy cfg,
               events := events g @ [PlayHit]\<rparr>)"

fun playerBulletsVsEnemies :: "GameConfig \<Rightarrow> nat \<Rightarrow> Game \<Rightarrow> Game" where
  "playerBulletsVsEnemies cfg 0 g = g"
| "playerBulletsVsEnemies cfg (Suc i) g = playerBulletsVsEnemies cfg i (hitEnemyAt cfg i g)"

fun findBulletHit :: "Bullet \<Rightarrow> Bullet list \<Rightarrow> nat \<Rightarrow> nat option" where
  "findBulletHit playerBullet ebs 0 = None"
| "findBulletHit playerBullet ebs (Suc j) =
     (if checkCollision playerBullet (ebs ! j) then Some j
      else findBulletHit playerBullet ebs j)"

definition cancelBulletAt :: "nat \<Rightarrow> Game \<Rightarrow> Game" where
  "cancelBulletAt i g =
     (let playerBullet = playerBullets g ! i
      in case findBulletHit playerBullet (enemyBullets g) (length (enemyBullets g)) of
           None \<Rightarrow> g
         | Some j \<Rightarrow>
             g\<lparr>playerBullets := splice1 i (playerBullets g),
               enemyBullets := splice1 j (enemyBullets g)\<rparr>)"

fun playerBulletsVsEnemyBullets :: "nat \<Rightarrow> Game \<Rightarrow> Game" where
  "playerBulletsVsEnemyBullets 0 g = g"
| "playerBulletsVsEnemyBullets (Suc i) g = playerBulletsVsEnemyBullets i (cancelBulletAt i g)"

definition hitPlayerAt :: "env \<Rightarrow> nat \<Rightarrow> Game \<Rightarrow> Game" where
  "hitPlayerAt ev i g =
     (let bullet = enemyBullets g ! i
      in if checkCollision bullet (player g) then
           let g1 = g\<lparr>enemyBullets := splice1 i (enemyBullets g),
                      player := (player g)\<lparr>lives := lives (player g) - 1\<rparr>,
                      events := events g @ [PlayDamage]\<rparr>
           in if lives (player g1) \<le> 0 then gameOver ev g1 else g1
         else g)"

fun enemyBulletsVsPlayer :: "env \<Rightarrow> nat \<Rightarrow> Game \<Rightarrow> Game" where
  "enemyBulletsVsPlayer ev 0 g = g"
| "enemyBulletsVsPlayer ev (Suc i) g = enemyBulletsVsPlayer ev i (hitPlayerAt ev i g)"

text \<open>The state after the three collision loops, before the round-clear check.\<close>

definition collisionLoops :: "GameConfig \<Rightarrow> env \<Rightarrow> Game \<Rightarrow> Game" where
  "collisionLoops cfg ev g =
     (let g1 = playerBulletsVsEnemies cfg (length (playerBullets g)) g;
          g2 = playerBulletsVsEnemyBullets (length (playerBullets g1)) g1
      in enemyBulletsVsPlayer ev (length (enemyBullets g2)) g2)"

definition checkCollisions :: "GameConfig \<Rightarrow> env \<Rightarrow> Game \<Rightarrow> Game" where
  "checkCollisions cfg ev g =
     (let g3 = collisionLoops cfg ev g
      in if enemies g3 = [] \<and> state g3 = Playing then gameClear ev g3 else g3)"

definition gameLoop :: "GameConfig \<Rightarrow> env \<Rightarrow> Game \<Rightarrow> Game" where
  "gameLoop cfg ev g =
     (if state g \<noteq> Playing then g
      else checkCollisions cfg ev (updateBullets cfg (updateEnemies cfg ev (updatePlayer cfg ev g))))"

definition togglePause :: "GameConfig \<Rightarrow> env \<Rightarrow> Game \<Rightarrow> Game" where
  "togglePause cfg ev g =
     (if state g = Playing then g\<lparr>state := Paused\<rparr>
      else if state g = Paused then gameLoop cfg ev (g\<lparr>state := Playing\<rparr>)
      else g)"

definition restart :: "GameConfig \<Rightarrow> env \<Rightarrow> Game \<Rightarrow> Game" where
  "restart cfg ev g =
     (let g1 = initEnemies cfg ev (g\<lparr>player := createPlayer cfg\<rparr>);
          g2 = g1\<lparr>playerBullets := [],
                  enemyBullets := [],
                  score := 0,
                  gameStartTime := nowStart ev,
                  state := Playing,
                  events := events g1 @ [StartBGM]\<rparr>
      in gameLoop cfg ev g2)"

definition start :: "GameConfig \<Rightarrow> env \<Rightarrow> Game \<Rightarrow> Game" where
  "start cfg ev g =
     (let (highScores, storage) = saveHighScore (engineSort ev) 0 (localStorage g);
          g1 = g\<lparr>localStorage := storage,
                 gameStartTime := nowStart ev,
                 events := events g @ [SaveHighScore 0, StartBGM]\<rparr>
      in gameLoop cfg ev g1)"

text \<open>
  The constructor: a new game over the given browser storage. The key handlers add the
  lower-cased key name to the set of held keys, or remove it. The mute button and
  \<open>stop\<close> act on the audio module and on the frame scheduler only, and leave every
  field of the game as it is.
\<close>

definition newGame :: "GameConfig \<Rightarrow> env \<Rightarrow> local_storage \<Rightarrow> Game" where
  "newGame cfg ev storage =
     initEnemies cfg ev
       \<lparr>player = createPlayer cfg,
        enemyStore = (\<lambda>r. \<lparr>position = \<lparr>x = 0, y = 0\<rparr>, velocity = \<lparr>x = 0, y = 0\<rparr>, radius = 15,
                            lastShotTime = 0, targetChangeTime = 0,
                            targetPosition = \<lparr>x = 0, y = 0\<rparr>\<rparr>),
        allocated = 0,
        enemies = [],
        playerBullets = [],
        enemyBullets = [],
        state = Playing,
        score = 0,
        keys = {},
        gameStartTime = 0,
        localStorage = storage,
        events = []\<rparr>"

datatype action =
    Tick env | PauseButton env | ContinueButton env | RestartButton env
  | Start env | KeyDown string | KeyUp string | MuteButton | Stop

fun step :: "GameConfig \<Rightarrow> action \<Rightarrow> Game \<Rightarrow> Game" where
  "step cfg (Tick ev) g = gameLoop cfg ev g"
| "step cfg (PauseButton ev) g = togglePause cfg ev g"
| "step cfg (ContinueButton ev) g = togglePause cfg ev g"
| "step cfg (RestartButton ev) g = restart cfg ev g"
| "step cfg (Start ev) g = start cfg ev g"
| "step cfg (KeyDown k) g = g\<lparr>keys := insert k (keys g)\<rparr>"
| "step cfg (KeyUp k) g = g\<lparr>keys := keys g - {k}\<rparr>"
| "step cfg MuteButton g = g"
| "step cfg Stop g = g"

text \<open>The states the game can be in after the constructor and any sequence of actions.\<close>

inductive reachable :: "GameConfig \<Rightarrow> Game \<Rightarrow> bool" for cfg :: GameConfig where
  reachable_new: "reachable cfg (newGame cfg ev storage)"
| reachable_step: "reachable cfg g \<Longrightarrow> reachable cfg (step cfg a g)"

section \<open>Auxiliary notions for the proofs\<close>

text \<open>The arguments of the recorded calls of \<open>saveHighScore\<close>, in order.\<close>

fun savedScores :: "event list \<Rightarrow> int list" where
  "savedScores [] = []"
| "savedScores (SaveHighScore n # es) = n # savedScores es"
| "savedScores (e # es) = savedScores es"

text \<open>
  \<open>quiet g g'\<close>: going from \<open>g\<close> to \<open>g'\<close> leaves the game state, the number of lives
  and the browser storage alone and only adds events that are not high-score saves.
\<close>

definition quiet :: "Game \<Rightarrow> Game \<Rightarrow> bool" where
  "quiet g g' \<longleftrightarrow>
     state g' = state g \<and> lives (player g') = lives (player g)
     \<and> localStorage g' = localStorage g
     \<and> (\<exists>es. events g' = events g @ es \<and> savedScores es = [])"

text \<open>
  The storage after a sequence of calls of \<open>saveHighScore\<close>, and \<open>traced\<close>: going
  from \<open>g\<close> to \<open>g'\<close> only adds events, and changes the storage by the recorded calls
  of \<open>saveHighScore\<close> and nothing else.
\<close>

definition applySaves ::
    "(json_entry list \<Rightarrow> json_entry list) \<Rightarrow> int list \<Rightarrow> local_storage \<Rightarrow> local_storage" where
  "applySaves engine ns storage = foldl (\<lambda>st n. snd (saveHighScore engine n st)) storage ns"

definition traced :: "env \<Rightarrow> Game \<Rightarrow> Game \<Rightarrow> bool" where
  "traced ev g g' \<longleftrightarrow>
     (\<exists>es. events g' = events g @ es
        \<and> localStorage g' = applySaves (engineSort ev) (savedScores es) (localStorage g))"

text \<open>The player has a life left unless the game is over.\<close>

definition livesInv :: "Game \<Rightarrow> bool" where
  "livesInv g \<longleftrightarrow> (state g \<noteq> GameOver \<longrightarrow> 1 \<le> lives (player g))"

section \<open>Concrete configurations and states\<close>

text \<open>
  A configuration with plausible values (\<open>config.ts\<close> fixes the real ones), an
  environment, and some game states on which the operations are run below.
\<close>

definition exampleConfig :: GameConfig where
  "exampleConfig =
     \<lparr>canvasWidth = 800, canvasHeight = 600, playerSpeed = 5, playerShootCooldown = 200,
      playerBulletSpeed = 8, playerLives = 3, enemyCount = 3, enemySpeed = 2,
      enemyShootInterval = 1000, enemyBulletSpeed = 3, enemyBulletDirections = 8,
      scorePerEnemy = 100, soundVolume = 0.3\<rparr>"

definition exampleEnv :: env where
  "exampleEnv =
     \<lparr>nowShoot = 1000, nowEnemies = 1000, nowStart = 0,
      nowInit = (\<lambda>i. 0), rndInit = (\<lambda>i. 0.5), rnd = (\<lambda>k j. 0.5),
      engineSort = (\<lambda>scores. scores)\<rparr>"

text \<open>An enemy resting at its target position.\<close>

definition enemyAt :: "real \<Rightarrow> real \<Rightarrow> Enemy" where
  "enemyAt ex ey =
     \<lparr>position = \<lparr>x = ex, y = ey\<rparr>, velocity = \<lparr>x = 0, y = 0\<rparr>, radius = 15,
      lastShotTime = 0, targetChangeTime = 0, targetPosition = \<lparr>x = ex, y = ey\<rparr>\<rparr>"

definition enemyBulletAt :: "real \<Rightarrow> real \<Rightarrow> Bullet" where
  "enemyBulletAt bx by =
     \<lparr>position = \<lparr>x = bx, y = by\<rparr>, velocity = \<lparr>x = 0, y = 3\<rparr>, radius = 3,
      isPlayerBullet = False, targetEnemy = None\<rparr>"

definition playerBulletAt :: "real \<Rightarrow> real \<Rightarrow> Vector2D \<Rightarrow> enemy_ref \<Rightarrow> Bullet" where
  "playerBulletAt bx by vel target =
     \<lparr>position = \<lparr>x = bx, y = by\<rparr>, velocity = vel, radius = 4,
      isPlayerBullet = True, targetEnemy = Some target\<rparr>"

text \<open>
  A game in play: the player at the bottom with the given number of lives, two enemy
  objects in the store (number 0 at (100, 100), number 1 at (700, 100)), of which the
  listed ones are in the enemy array.
\<close>

definition exampleGame :: "int \<Rightarrow> enemy_ref list \<Rightarrow> Bullet list \<Rightarrow> Bullet list \<Rightarrow> Game" where
  "exampleGame n es pbs ebs =
     \<lparr>player = \<lparr>position = \<lparr>x = 400, y = 550\<rparr>, velocity = \<lparr>x = 0, y = 0\<rparr>, radius = 8,
                 lives = n, lastShotTime = 0\<rparr>,
      enemyStore = (\<lambda>r. if r = 0 then enemyAt 100 100 else enemyAt 700 100),
      allocated = 2,
      enemies = es,
      playerBullets = pbs,
      enemyBullets = ebs,
      state = Playing,
      score = 0,
      keys = {},
      gameStartTime = 0,
      localStorage = Map.empty,
      events = []\<rparr>"

text \<open>
  The games used below: one in which nothing moves, one without enemies, one in which a
  player bullet overlaps the last enemy, one with an enemy bullet in flight, one in which
  two player bullets fly towards enemy number 0 and the first of them overlaps it, one
  in which enemy number 0 has been removed from the enemy array and a player bullet
  aimed at it has arrived where it was, one in which a player bullet overlaps the last
  enemy and an enemy bullet overlaps the player, who has a single life, one with two
  stored high scores, and a game that is over.
\<close>

definition restingGame :: Game where
  "restingGame = exampleGame 3 [0, 1] [] []"

definition noEnemyGame :: Game where
  "noEnemyGame = exampleGame 3 [] [] []"

definition lastEnemyGame :: Game where
  "lastEnemyGame = exampleGame 3 [0] [playerBulletAt 100 100 \<lparr>x = 0, y = - 8\<rparr> 0] []"

definition volleyGame :: Game where
  "volleyGame = exampleGame 3 [0] [] [enemyBulletAt 5 5]"

definition scenarioGame :: Game where
  "scenarioGame =
     exampleGame 3 [0, 1]
       [playerBulletAt 100 110 \<lparr>x = 0, y = - 8\<rparr> 0,
        playerBulletAt 100 124 \<lparr>x = 0, y = - 8\<rparr> 0] []"

definition staleTargetGame :: Game where
  "staleTargetGame =
     (exampleGame 3 [1] [playerBulletAt 100 100 \<lparr>x = 0, y = - 8\<rparr> 0] [])
       \<lparr>score := 100, events := [PlayHit]\<rparr>"

definition bothHitGame :: Game where
  "bothHitGame =
     exampleGame 1 [0] [playerBulletAt 100 100 \<lparr>x = 0, y = - 8\<rparr> 0] [enemyBulletAt 400 550]"

definition storedGame :: Game where
  "storedGame =
     (exampleGame 3 [0, 1] [] [])
       \<lparr>localStorage := [HIGH_SCORES_KEY \<mapsto> JSONText (JArray [JNumber 500, JNumber 300])]\<rparr>"

definition overGame :: Game where
  "overGame = (exampleGame 0 [] [] [])\<lparr>state := GameOver\<rparr>"

text \<open>
  A configuration with a low playfield, a single enemy that fires two bullets per
  volley, and a single life: the enemy is confined to the upper half of the playfield,
  which ends where the player starts. In the environment below the first tick happens
  5000 ms after the page was loaded.
\<close>

definition lowConfig :: GameConfig where
  "lowConfig =
     \<lparr>canvasWidth = 800, canvasHeight = 100, playerSpeed = 5, playerShootCooldown = 200,
      playerBulletSpeed = 8, playerLives = 1, enemyCount = 1, enemySpeed = 2,
      enemyShootInterval = 1000, enemyBulletSpeed = 1, enemyBulletDirections = 2,
      scorePerEnemy = 100, soundVolume = 0.3\<rparr>"

definition lateEnv :: env where
  "lateEnv =
     \<lparr>nowShoot = 5000, nowEnemies = 5000, nowStart = 5000,
      nowInit = (\<lambda>i. 5000), rndInit = (\<lambda>i. 0), rnd = (\<lambda>k j. 0.5),
      engineSort = (\<lambda>scores. scores)\<rparr>"

text \<open>
  An enemy that rests at its target, inside the region enemies are confined to under
  \<open>exampleConfig\<close>.
\<close>

definition restingEnemy :: "Enemy \<Rightarrow> bool" where
  "restingEnemy e \<longleftrightarrow>
     e = enemyAt (x (position e)) (y (position e))
     \<and> 15 \<le> x (position e) \<and> x (position e) \<le> 785
     \<and> 15 \<le> y (position e) \<and> y (position e) \<le> 300"

section \<open>Geometry: collision test\<close>

lemma distance_sqrt:
  "distance a b = sqrt ((x a - x b)\<^sup>2 + (y a - y b)\<^sup>2)"
  by (simp add: distance_def Let_def power2_eq_square)

lemma distance_nonneg: "0 \<le> distance a b"
  by (simp add: distance_def Let_def)

text \<open>
  Claim C9. Two game objects collide exactly when the Euclidean distance of their
  centres is strictly smaller than the sum of their radii; circles that touch (distance
  equal to the sum of the radii) do not collide.
\<close>

theorem checkCollision_strict:
  "(checkCollision a b \<longleftrightarrow>
      sqrt ((x (position a) - x (position b))\<^sup>2 + (y (position a) - y (position b))\<^sup>2)
        < radius a + radius b)
   \<and> (checkCollision a b \<longleftrightarrow> distance (position a) (position b) < radius a + radius b)
   \<and> (distance (position a) (position b) = radius a + radius b \<longrightarrow> \<not> checkCollision a b)"
  by (simp add: checkCollision_def distance_sqrt)

theorem checkCollision_strict_witness:
  "distance \<lparr>x = 0, y = 0\<rparr> \<lparr>x = 10, y = 0\<rparr> = 5 + 5
   \<and> \<not> checkCollision \<lparr>position = \<lparr>x = 0, y = 0\<rparr>, velocity = \<lparr>x = 0, y = 0\<rparr>, radius = 5\<rparr>
                       \<lparr>position = \<lparr>x = 10, y = 0\<rparr>, velocity = \<lparr>x = 0, y = 0\<rparr>, radius = 5\<rparr>
   \<and> checkCollision \<lparr>position = \<lparr>x = 0, y = 0\<rparr>, velocity = \<lparr>x = 0, y = 0\<rparr>, radius = 5\<rparr>
                     \<lparr>position = \<lparr>x = 9, y = 0\<rparr>, velocity = \<lparr>x = 0, y = 0\<rparr>, radius = 5\<rparr>"
proof -
  have d: "distance \<lparr>x = 0, y = 0\<rparr> \<lparr>x = 10, y = 0\<rparr> = 5 + 5"
    by (simp add: distance_sqrt)
  have d9: "distance \<lparr>x = 0, y = 0\<rparr> \<lparr>x = 9, y = 0\<rparr> = 9"
    by (simp add: distance_sqrt)
  show ?thesis
    using d d9
      checkCollision_strict [of "\<lparr>position = \<lparr>x = 0, y = 0\<rparr>, velocity = \<lparr>x = 0, y = 0\<rparr>, radius = 5\<rparr>"
                                "\<lparr>position = \<lparr>x = 10, y = 0\<rparr>, velocity = \<lparr>x = 0, y = 0\<rparr>, radius = 5\<rparr>"]
      checkCollision_strict [of "\<lparr>position = \<lparr>x = 0, y = 0\<rparr>, velocity = \<lparr>x = 0, y = 0\<rparr>, radius = 5\<rparr>"
                                "\<lparr>position = \<lparr>x = 9, y = 0\<rparr>, velocity = \<lparr>x = 0, y = 0\<rparr>, radius = 5\<rparr>"]
    by simp
qed

section \<open>High scores\<close>

lemma numbersOf_map [simp]: "numbersOf (map JNumber vs) = Some vs"
  by (induction vs) simp_all

lemma numbersOf_Some: "numbersOf es = Some vs \<Longrightarrow> es = map JNumber vs"
proof (induction es arbitrary: vs rule: numbersOf.induct)
  case 1
  then show ?case by simp
next
  case (2 v es)
  then show ?case by (cases "numbersOf es") auto
next
  case (3 t es)
  then show ?case by simp
qed

lemma numbersOf_snoc:
  "numbersOf es = Some vs \<Longrightarrow> numbersOf (es @ [JNumber v]) = Some (vs @ [v])"
proof -
  assume "numbersOf es = Some vs"
  then have "es @ [JNumber v] = map JNumber (vs @ [v])"
    by (simp add: numbersOf_Some)
  then show ?thesis by (simp only: numbersOf_map)
qed

lemma sorted_desc_sort: "sorted_wrt (\<lambda>a b. b \<le> a) (sort_key (\<lambda>v. - v) (vs :: real list))"
proof -
  have "sorted (map (\<lambda>v. - v) (sort_key (\<lambda>v. - v) vs))"
    by (rule sorted_sort_key)
  then show ?thesis
    by (simp add: sorted_wrt_map sorted_wrt_iff_nth_less)
qed

lemma desc_top_contains:
  fixes n :: real
  assumes d: "sorted_wrt (\<lambda>a b. b \<le> a) ys" and n: "n \<in> set ys"
    and k: "length (filter (\<lambda>v. n < v) ys) < m"
  shows "n \<in> set (take m ys)"
proof -
  from n obtain as bs where ys: "ys = as @ n # bs" and nas: "n \<notin> set as"
    by (auto dest: split_list_first)
  from d ys have "\<forall>a\<in>set as. n \<le> a"
    by (simp add: sorted_wrt_append)
  with nas have "\<forall>a\<in>set as. n < a"
    by (metis order_le_less)
  then have "filter (\<lambda>v. n < v) as = as"
    by (simp add: filter_id_conv)
  then have "length as \<le> length (filter (\<lambda>v. n < v) ys)"
    by (simp add: ys)
  with k have "length as < m" by simp
  then obtain d where "m - length as = Suc d"
    by (cases "m - length as") auto
  then show ?thesis by (simp add: ys)
qed

lemma saveHighScore_result:
  "fst (saveHighScore engine n storage)
     = take 3 (sortDesc engine (getHighScores storage @ [JNumber (of_int n)]))"
  by (simp add: saveHighScore_def Let_def)

lemma saveHighScore_storage:
  "snd (saveHighScore engine n storage) =
     storage(HIGH_SCORES_KEY \<mapsto> JSONText (JArray (fst (saveHighScore engine n storage))))"
  by (simp add: saveHighScore_def Let_def JSON_stringify_def)

lemma getHighScores_array:
  "storage HIGH_SCORES_KEY = Some (JSONText (JArray arr)) \<Longrightarrow> getHighScores storage = arr"
  by (simp add: getHighScores_def JSON_parse_def)

lemma getHighScores_missing:
  "storage HIGH_SCORES_KEY = None \<Longrightarrow> getHighScores storage = [JNumber 0, JNumber 0, JNumber 0]"
  by (simp add: getHighScores_def)


text \<open>On loaded numbers the result does not depend on the engine.\<close>

lemma saveHighScore_numbers:
  assumes "numbersOf (getHighScores storage) = Some vs"
  shows "fst (saveHighScore engine n storage)
           = map JNumber (take 3 (sort_key (\<lambda>v. - v) (vs @ [of_int n])))"
  using numbersOf_snoc [OF assms, of "of_int n"]
  by (simp add: saveHighScore_result sortDesc_def take_map)

lemma top_three_contains:
  fixes n :: real
  assumes "length (filter (\<lambda>v. n < v) vs) < 3"
  shows "n \<in> set (take 3 (sort_key (\<lambda>v. - v) (vs @ [n])))"
proof (rule desc_top_contains)
  show "sorted_wrt (\<lambda>a b. b \<le> a) (sort_key (\<lambda>v. - v) (vs @ [n]))"
    by (rule sorted_desc_sort)
  show "n \<in> set (sort_key (\<lambda>v. - v) (vs @ [n]))" by simp
  show "length (filter (\<lambda>v. n < v) (sort_key (\<lambda>v. - v) (vs @ [n]))) < 3"
    using assms by (simp add: filter_sort)
qed

lemma applySaves_Nil [simp]: "applySaves engine [] storage = storage"
  by (simp add: applySaves_def)

lemma applySaves_append:
  "applySaves engine (ms @ ns) storage = applySaves engine ns (applySaves engine ms storage)"
  by (simp add: applySaves_def)

lemma applySaves_single [simp]:
  "applySaves engine [n] storage = snd (saveHighScore engine n storage)"
  by (simp add: applySaves_def)


section \<open>What a tick leaves alone\<close>

lemma savedScores_append [simp]: "savedScores (es @ fs) = savedScores es @ savedScores fs"
  by (induction es rule: savedScores.induct) auto

lemma quiet_refl [simp]: "quiet g g"
  by (simp add: quiet_def)

lemma quiet_trans: "quiet g g1 \<Longrightarrow> quiet g1 g2 \<Longrightarrow> quiet g g2"
  by (auto simp: quiet_def)

lemma shootPlayerBullet_quiet: "quiet g (shootPlayerBullet cfg ev g)"
  by (simp add: shootPlayerBullet_def Let_def quiet_def split: option.splits)

lemma updatePlayer_quiet: "quiet g (updatePlayer cfg ev g)"
proof -
  have "quiet g1 (if c then shootPlayerBullet cfg ev g1 else g1)" for c g1
    by (simp add: shootPlayerBullet_quiet)
  moreover have "quiet g (g\<lparr>player := (player g)\<lparr>position := pos\<rparr>\<rparr>)" for pos
    by (simp add: quiet_def)
  ultimately show ?thesis
    unfolding updatePlayer_def Let_def by (blast intro: quiet_trans)
qed

lemma shootEnemyBulletsLoop_quiet: "quiet g (shootEnemyBulletsLoop cfg enemy angleStep i g)"
proof (induction cfg enemy angleStep i g rule: shootEnemyBulletsLoop.induct)
  case (1 cfg enemy angleStep i g)
  show ?case
  proof (cases "i < enemyBulletDirections cfg")
    case True
    have "quiet g (g\<lparr>enemyBullets := bs\<rparr>)" for bs
      by (simp add: quiet_def)
    with "1.IH" [OF True refl refl refl] True show ?thesis
      by (subst shootEnemyBulletsLoop.simps) (auto simp: Let_def intro: quiet_trans)
  next
    case False
    then show ?thesis by (subst shootEnemyBulletsLoop.simps) simp
  qed
qed

lemma shootEnemyBullets_quiet: "quiet g (shootEnemyBullets cfg enemy g)"
  by (simp add: shootEnemyBullets_def shootEnemyBulletsLoop_quiet)

lemma quiet_store: "quiet g g1 \<Longrightarrow> quiet g (g1\<lparr>enemyStore := st\<rparr>)"
  by (simp add: quiet_def)

lemma updateEnemy_quiet: "quiet g (updateEnemy cfg ev now shootInterval k r g)"
  unfolding updateEnemy_def Let_def
  by (simp add: quiet_store shootEnemyBullets_quiet)

lemma updateEnemiesLoop_quiet: "quiet g (updateEnemiesLoop cfg ev now shootInterval k rs g)"
proof (induction rs arbitrary: k g)
  case Nil
  show ?case by simp
next
  case (Cons r rs)
  show ?case
    by (simp del: One_nat_def) (rule quiet_trans [OF updateEnemy_quiet Cons.IH])
qed

lemma updateEnemies_quiet: "quiet g (updateEnemies cfg ev g)"
  by (simp add: updateEnemies_def Let_def updateEnemiesLoop_quiet)

lemma updateBullets_quiet: "quiet g (updateBullets cfg g)"
  by (simp add: updateBullets_def Let_def quiet_def)

lemma hitEnemyAt_quiet: "quiet g (hitEnemyAt cfg i g)"
  by (simp add: hitEnemyAt_def Let_def quiet_def split: option.splits)

lemma playerBulletsVsEnemies_quiet: "quiet g (playerBulletsVsEnemies cfg i g)"
proof (induction i arbitrary: g)
  case 0
  show ?case by simp
next
  case (Suc i)
  show ?case
    by simp (rule quiet_trans [OF hitEnemyAt_quiet Suc.IH])
qed

lemma cancelBulletAt_quiet: "quiet g (cancelBulletAt i g)"
  by (simp add: cancelBulletAt_def Let_def quiet_def split: option.splits)

lemma playerBulletsVsEnemyBullets_quiet: "quiet g (playerBulletsVsEnemyBullets i g)"
proof (induction i arbitrary: g)
  case 0
  show ?case by simp
next
  case (Suc i)
  show ?case
    by simp (rule quiet_trans [OF cancelBulletAt_quiet Suc.IH])
qed

lemma gameOver_state [simp]: "state (gameOver ev g) = GameOver"
  by (simp add: gameOver_def Let_def split: prod.splits)

lemma gameOver_fields [simp]:
  "player (gameOver ev g) = player g" "enemies (gameOver ev g) = enemies g"
  "score (gameOver ev g) = score g" "enemyBullets (gameOver ev g) = enemyBullets g"
  "playerBullets (gameOver ev g) = playerBullets g"
  by (simp_all add: gameOver_def Let_def split: prod.splits)

lemma gameOver_events:
  "events (gameOver ev g) = events g @ [StopBGM, PlayGameOver, SaveHighScore (score g)]"
  by (simp add: gameOver_def Let_def split: prod.splits)

lemma gameOver_storage:
  "localStorage (gameOver ev g) = snd (saveHighScore (engineSort ev) (score g) (localStorage g))"
  by (simp add: gameOver_def Let_def split: prod.splits)

lemma hitPlayerAt_state:
  "state (hitPlayerAt ev i g) = state g \<or> state (hitPlayerAt ev i g) = GameOver"
  by (simp add: hitPlayerAt_def Let_def)

lemma hitPlayerAt_playing:
  "state (hitPlayerAt ev i g) = Playing \<Longrightarrow>
     localStorage (hitPlayerAt ev i g) = localStorage g
     \<and> savedScores (events (hitPlayerAt ev i g)) = savedScores (events g)
     \<and> state g = Playing"
  by (auto simp: hitPlayerAt_def Let_def split: if_splits)

lemma hitPlayerAt_fields [simp]:
  "enemies (hitPlayerAt ev i g) = enemies g" "score (hitPlayerAt ev i g) = score g"
  by (simp_all add: hitPlayerAt_def Let_def)

text \<open>A hit either saves nothing and keeps the state, or ends the game and saves the score.\<close>

lemma hitPlayerAt_saved:
  "savedScores (events (hitPlayerAt ev i g)) = savedScores (events g)
     \<and> state (hitPlayerAt ev i g) = state g
   \<or> savedScores (events (hitPlayerAt ev i g)) = savedScores (events g) @ [score g]
     \<and> state (hitPlayerAt ev i g) = GameOver"
  by (simp add: hitPlayerAt_def Let_def gameOver_events)

lemma enemyBulletsVsPlayer_state:
  "state (enemyBulletsVsPlayer ev i g) = state g \<or> state (enemyBulletsVsPlayer ev i g) = GameOver"
proof (induction i arbitrary: g)
  case 0
  show ?case by simp
next
  case (Suc i)
  have "state (hitPlayerAt ev i g) = state g \<or> state (hitPlayerAt ev i g) = GameOver"
    by (rule hitPlayerAt_state)
  moreover have "state (enemyBulletsVsPlayer ev i (hitPlayerAt ev i g)) = state (hitPlayerAt ev i g)
      \<or> state (enemyBulletsVsPlayer ev i (hitPlayerAt ev i g)) = GameOver"
    by (rule Suc.IH)
  ultimately show ?case by auto
qed

lemma enemyBulletsVsPlayer_playing:
  "state (enemyBulletsVsPlayer ev i g) = Playing \<Longrightarrow>
     localStorage (enemyBulletsVsPlayer ev i g) = localStorage g
     \<and> savedScores (events (enemyBulletsVsPlayer ev i g)) = savedScores (events g)
     \<and> state g = Playing"
proof (induction i arbitrary: g)
  case 0
  then show ?case by simp
next
  case (Suc i)
  from Suc.prems have fin: "state (enemyBulletsVsPlayer ev i (hitPlayerAt ev i g)) = Playing"
    by simp
  from Suc.IH [OF fin] have "state (hitPlayerAt ev i g) = Playing"
    and ih: "localStorage (enemyBulletsVsPlayer ev i (hitPlayerAt ev i g))
               = localStorage (hitPlayerAt ev i g)"
      "savedScores (events (enemyBulletsVsPlayer ev i (hitPlayerAt ev i g)))
               = savedScores (events (hitPlayerAt ev i g))"
    by simp_all
  from hitPlayerAt_playing [OF this(1)] ih show ?case by simp
qed

lemma enemyBulletsVsPlayer_fields [simp]:
  "enemies (enemyBulletsVsPlayer ev i g) = enemies g"
  "score (enemyBulletsVsPlayer ev i g) = score g"
  by (induction i arbitrary: g) simp_all

text \<open>
  The third loop saves the score, without any bonus, once for every hit from the one
  that ends the game onwards, and at least once if it ends the game.
\<close>

lemma enemyBulletsVsPlayer_saved:
  "\<exists>k. savedScores (events (enemyBulletsVsPlayer ev i g))
          = savedScores (events g) @ replicate k (score g)
       \<and> (state g = Playing \<and> state (enemyBulletsVsPlayer ev i g) = GameOver \<longrightarrow> 0 < k)"
proof (induction i arbitrary: g)
  case 0
  show ?case by simp
next
  case (Suc i)
  define h where "h = hitPlayerAt ev i g"
  from Suc.IH [of h] obtain k where
    k: "savedScores (events (enemyBulletsVsPlayer ev i h))
          = savedScores (events h) @ replicate k (score h)"
    and k0: "state h = Playing \<and> state (enemyBulletsVsPlayer ev i h) = GameOver \<longrightarrow> 0 < k"
    by blast
  have sc: "score h = score g" by (simp add: h_def)
  from hitPlayerAt_saved [of ev i g]
  consider "savedScores (events h) = savedScores (events g)" "state h = state g"
    | "savedScores (events h) = savedScores (events g) @ [score g]"
    by (auto simp: h_def)
  then have "\<exists>k'. savedScores (events (enemyBulletsVsPlayer ev i h))
          = savedScores (events g) @ replicate k' (score g)
       \<and> (state g = Playing \<and> state (enemyBulletsVsPlayer ev i h) = GameOver \<longrightarrow> 0 < k')"
  proof cases
    case 1
    with k k0 sc show ?thesis by auto
  next
    case 2
    with k sc have "savedScores (events (enemyBulletsVsPlayer ev i h))
          = savedScores (events g) @ replicate (Suc k) (score g)"
      by simp
    then show ?thesis by blast
  qed
  then show ?case by (simp add: h_def)
qed


section \<open>Storage and events along a tick\<close>

lemma traced_refl [simp]: "traced ev g g"
  by (simp add: traced_def)

lemma traced_trans: "traced ev g g1 \<Longrightarrow> traced ev g1 g2 \<Longrightarrow> traced ev g g2"
  by (auto simp: traced_def applySaves_append)

lemma quiet_traced: "quiet g g' \<Longrightarrow> traced ev g g'"
  by (auto simp: quiet_def traced_def)

lemma gameOver_traced: "traced ev g (gameOver ev g)"
  by (simp add: traced_def gameOver_events gameOver_storage)

lemma hitPlayerAt_traced: "traced ev g (hitPlayerAt ev i g)"
proof -
  define g1 where "g1 = g\<lparr>enemyBullets := splice1 i (enemyBullets g),
                      player := (player g)\<lparr>lives := lives (player g) - 1\<rparr>,
                      events := events g @ [PlayDamage]\<rparr>"
  have t1: "traced ev g g1"
    by (simp add: traced_def g1_def)
  have t2: "traced ev g (gameOver ev g1)"
    by (rule traced_trans [OF t1 gameOver_traced])
  have "hitPlayerAt ev i g = g \<or> hitPlayerAt ev i g = g1 \<or> hitPlayerAt ev i g = gameOver ev g1"
    by (simp add: hitPlayerAt_def Let_def g1_def)
  with t1 t2 show ?thesis by auto
qed

lemma enemyBulletsVsPlayer_traced: "traced ev g (enemyBulletsVsPlayer ev i g)"
proof (induction i arbitrary: g)
  case 0
  show ?case by simp
next
  case (Suc i)
  show ?case
    by simp (rule traced_trans [OF hitPlayerAt_traced Suc.IH])
qed


section \<open>Collision resolution and the tick as a whole\<close>

lemma quiet_collision_prefix:
  "quiet g (playerBulletsVsEnemyBullets j (playerBulletsVsEnemies cfg i g))"
  by (rule quiet_trans [OF playerBulletsVsEnemies_quiet playerBulletsVsEnemyBullets_quiet])

lemma collisionLoops_split:
  "\<exists>g2. quiet g g2 \<and> score g2 = score (playerBulletsVsEnemies cfg (length (playerBullets g)) g)
      \<and> collisionLoops cfg ev g = enemyBulletsVsPlayer ev (length (enemyBullets g2)) g2"
proof -
  define g1 where "g1 = playerBulletsVsEnemies cfg (length (playerBullets g)) g"
  define g2 where "g2 = playerBulletsVsEnemyBullets (length (playerBullets g1)) g1"
  have "quiet g g2" unfolding g2_def g1_def by (rule quiet_collision_prefix)
  moreover have "score (playerBulletsVsEnemyBullets j g') = score g'" for j g'
    by (induction j arbitrary: g') (simp_all add: cancelBulletAt_def Let_def split: option.splits)
  then have "score g2 = score g1" by (simp add: g2_def)
  moreover have "collisionLoops cfg ev g = enemyBulletsVsPlayer ev (length (enemyBullets g2)) g2"
    by (simp add: collisionLoops_def Let_def g2_def g1_def)
  ultimately show ?thesis unfolding g1_def by blast
qed

lemma collisionLoops_state:
  "state (collisionLoops cfg ev g) = state g \<or> state (collisionLoops cfg ev g) = GameOver"
proof -
  from collisionLoops_split [of g cfg ev] obtain g2 where "quiet g g2"
    and cl: "collisionLoops cfg ev g = enemyBulletsVsPlayer ev (length (enemyBullets g2)) g2"
    by blast
  then have "state g2 = state g" by (simp add: quiet_def)
  moreover have "state (enemyBulletsVsPlayer ev (length (enemyBullets g2)) g2) = state g2
      \<or> state (enemyBulletsVsPlayer ev (length (enemyBullets g2)) g2) = GameOver"
    by (rule enemyBulletsVsPlayer_state)
  ultimately show ?thesis by (simp add: cl)
qed

lemma collisionLoops_playing:
  assumes "state (collisionLoops cfg ev g) = Playing"
  shows "localStorage (collisionLoops cfg ev g) = localStorage g
         \<and> savedScores (events (collisionLoops cfg ev g)) = savedScores (events g)
         \<and> state g = Playing"
proof -
  from collisionLoops_split [of g cfg ev] obtain g2 where "quiet g g2"
    and cl: "collisionLoops cfg ev g = enemyBulletsVsPlayer ev (length (enemyBullets g2)) g2"
    by blast
  then have q: "state g2 = state g" "localStorage g2 = localStorage g"
    "savedScores (events g2) = savedScores (events g)"
    by (auto simp: quiet_def)
  from assms have "state (enemyBulletsVsPlayer ev (length (enemyBullets g2)) g2) = Playing"
    by (simp add: cl)
  from enemyBulletsVsPlayer_playing [OF this] q show ?thesis by (simp add: cl)
qed

lemma collisionLoops_saved:
  "\<exists>k. savedScores (events (collisionLoops cfg ev g))
          = savedScores (events g) @ replicate k (score (collisionLoops cfg ev g))
       \<and> (state g = Playing \<and> state (collisionLoops cfg ev g) = GameOver \<longrightarrow> 0 < k)"
proof -
  from collisionLoops_split [of g cfg ev] obtain g2 where "quiet g g2"
    and cl: "collisionLoops cfg ev g = enemyBulletsVsPlayer ev (length (enemyBullets g2)) g2"
    by blast
  then have q: "state g2 = state g" "savedScores (events g2) = savedScores (events g)"
    by (auto simp: quiet_def)
  from enemyBulletsVsPlayer_saved [of ev "length (enemyBullets g2)" g2] q
  show ?thesis by (simp add: cl)
qed

lemma collisionLoops_traced: "traced ev g (collisionLoops cfg ev g)"
proof -
  from collisionLoops_split [of g cfg ev] obtain g2 where "quiet g g2"
    and cl: "collisionLoops cfg ev g = enemyBulletsVsPlayer ev (length (enemyBullets g2)) g2"
    by blast
  from \<open>quiet g g2\<close> have "traced ev g g2" by (rule quiet_traced)
  then show ?thesis
    unfolding cl by (rule traced_trans [OF _ enemyBulletsVsPlayer_traced])
qed

lemma gameClear_state [simp]: "state (gameClear ev g) = GameClear"
  by (simp add: gameClear_def Let_def split: prod.splits)

lemma gameClear_fields [simp]:
  "player (gameClear ev g) = player g" "enemies (gameClear ev g) = enemies g"
  "score (gameClear ev g) = score g"
  by (simp_all add: gameClear_def Let_def split: prod.splits)

lemma gameClear_events:
  "events (gameClear ev g) =
     events g @ [StopBGM, PlayGameClear, SaveHighScore (score g + lives (player g) * 100)]"
  by (simp add: gameClear_def Let_def split: prod.splits)

lemma gameClear_storage:
  "localStorage (gameClear ev g) =
     snd (saveHighScore (engineSort ev) (score g + lives (player g) * 100) (localStorage g))"
  by (simp add: gameClear_def Let_def split: prod.splits)

lemma gameClear_traced: "traced ev g (gameClear ev g)"
  by (simp add: traced_def gameClear_events gameClear_storage)

lemma checkCollisions_state:
  "state (checkCollisions cfg ev g) = state g \<or> state (checkCollisions cfg ev g) = GameOver
   \<or> state (checkCollisions cfg ev g) = GameClear"
  using collisionLoops_state [of cfg ev g] by (auto simp: checkCollisions_def Let_def)

lemma checkCollisions_playing:
  "state (checkCollisions cfg ev g) = Playing \<Longrightarrow>
     localStorage (checkCollisions cfg ev g) = localStorage g
     \<and> savedScores (events (checkCollisions cfg ev g)) = savedScores (events g)"
  using collisionLoops_playing [of cfg ev g]
  by (auto simp: checkCollisions_def Let_def split: if_splits)

lemma checkCollisions_traced: "traced ev g (checkCollisions cfg ev g)"
  using collisionLoops_traced [of ev g cfg]
  by (auto simp: checkCollisions_def Let_def intro: traced_trans gameClear_traced)

lemma updates_quiet:
  "quiet g (updateBullets cfg (updateEnemies cfg ev (updatePlayer cfg ev g)))"
  by (blast intro: quiet_trans updatePlayer_quiet updateEnemies_quiet updateBullets_quiet)

lemma gameLoop_not_playing: "state g \<noteq> Playing \<Longrightarrow> gameLoop cfg ev g = g"
  by (simp add: gameLoop_def)

lemma gameLoop_state:
  "state (gameLoop cfg ev g) = state g \<or> state (gameLoop cfg ev g) = GameOver
   \<or> state (gameLoop cfg ev g) = GameClear"
proof (cases "state g = Playing")
  case True
  define u where "u = updateBullets cfg (updateEnemies cfg ev (updatePlayer cfg ev g))"
  have "quiet g u" unfolding u_def by (rule updates_quiet)
  then have "state u = state g" by (simp add: quiet_def)
  moreover have "gameLoop cfg ev g = checkCollisions cfg ev u"
    using True by (simp add: gameLoop_def u_def)
  ultimately show ?thesis using checkCollisions_state [of cfg ev u] by simp
next
  case False
  then show ?thesis by (simp add: gameLoop_def)
qed

text \<open>A tick after which the game is still in play, or one on a game not in play, saves nothing.\<close>

lemma gameLoop_playing:
  assumes "state (gameLoop cfg ev g) = Playing \<or> state g \<noteq> Playing"
  shows "localStorage (gameLoop cfg ev g) = localStorage g
         \<and> savedScores (events (gameLoop cfg ev g)) = savedScores (events g)"
proof (cases "state g = Playing")
  case True
  define u where "u = updateBullets cfg (updateEnemies cfg ev (updatePlayer cfg ev g))"
  have "quiet g u" unfolding u_def by (rule updates_quiet)
  then have q: "localStorage u = localStorage g" "savedScores (events u) = savedScores (events g)"
    by (auto simp: quiet_def)
  have gl: "gameLoop cfg ev g = checkCollisions cfg ev u"
    using True by (simp add: gameLoop_def u_def)
  with assms True have "state (checkCollisions cfg ev u) = Playing" by simp
  from checkCollisions_playing [OF this] q show ?thesis by (simp add: gl)
next
  case False
  then show ?thesis by (simp add: gameLoop_def)
qed

lemma gameLoop_traced: "traced ev g (gameLoop cfg ev g)"
proof (cases "state g = Playing")
  case True
  have "traced ev g (updateBullets cfg (updateEnemies cfg ev (updatePlayer cfg ev g)))"
    using updates_quiet by (rule quiet_traced)
  then have "traced ev g
      (checkCollisions cfg ev (updateBullets cfg (updateEnemies cfg ev (updatePlayer cfg ev g))))"
    by (rule traced_trans [OF _ checkCollisions_traced])
  with True show ?thesis by (simp add: gameLoop_def)
next
  case False
  then show ?thesis by (simp add: gameLoop_def)
qed


section \<open>Running the tick on concrete states\<close>

lemma updateEnemy_resting:
  assumes "restingEnemy (enemyStore g r)" and "now \<le> 2000" and "now \<le> shootInterval"
  shows "updateEnemy exampleConfig ev now shootInterval k r g = g"
proof -
  define ex ey where "ex = x (position (enemyStore g r))" and "ey = y (position (enemyStore g r))"
  from assms(1) have e: "enemyStore g r = enemyAt ex ey"
    and b: "15 \<le> ex" "ex \<le> 785" "15 \<le> ey" "ey \<le> 300"
    by (simp_all add: restingEnemy_def ex_def ey_def)
  have "updateEnemy exampleConfig ev now shootInterval k r g
        = g\<lparr>enemyStore := (enemyStore g)(r := enemyAt ex ey)\<rparr>"
    using e b assms(2,3)
    by (simp add: updateEnemy_def enemyAt_def getDirectionVector_def normalize_def clamp_def
        exampleConfig_def Let_def)
  also have "(enemyStore g)(r := enemyAt ex ey) = enemyStore g"
    using e by auto
  finally show ?thesis by simp
qed

lemma updateEnemiesLoop_resting:
  assumes "\<forall>r\<in>set rs. restingEnemy (enemyStore g r)"
    and "now \<le> 2000" and "now \<le> shootInterval"
  shows "updateEnemiesLoop exampleConfig ev now shootInterval k rs g = g"
  using assms(1)
proof (induction rs arbitrary: k)
  case Nil
  show ?case by simp
next
  case (Cons r rs)
  from Cons.prems have "restingEnemy (enemyStore g r)" by simp
  then have "updateEnemy exampleConfig ev now shootInterval k r g = g"
    using assms(2,3) by (rule updateEnemy_resting)
  with Cons show ?case by simp
qed

text \<open>
  With no key held, no bullet in flight and every enemy resting at its target, a tick
  early in the round changes nothing.
\<close>

lemma gameLoop_resting:
  assumes "state g = Playing" and "keys g = {}"
    and "playerBullets g = []" and "enemyBullets g = []" and "enemies g \<noteq> []"
    and "\<forall>r\<in>set (enemies g). restingEnemy (enemyStore g r)"
    and "position (player g) = \<lparr>x = 400, y = 550\<rparr>" and "radius (player g) = 8"
    and "nowEnemies ev \<le> 1000" and "nowEnemies ev - gameStartTime g < 10000"
  shows "gameLoop exampleConfig ev g = g"
proof -
  have "(player g)\<lparr>position := \<lparr>x = 400, y = 550\<rparr>\<rparr> = player g"
    using assms(7) by (metis GameObject.surjective GameObject.update_convs(1))
  then have u1: "updatePlayer exampleConfig ev g = g"
    using assms(2,7,8) by (simp add: updatePlayer_def clamp_def exampleConfig_def)
  have si: "enemyShootInterval exampleConfig = 1000"
    by (simp add: exampleConfig_def)
  have u2: "updateEnemies exampleConfig ev g = g"
    using assms(6,9,10)
    by (simp add: updateEnemies_def Let_def si updateEnemiesLoop_resting)
  have u3: "updateBullets exampleConfig g = g"
    using assms(3,4) by (simp add: updateBullets_def)
  have u4: "checkCollisions exampleConfig ev g = g"
    using assms(3,4,5) by (simp add: checkCollisions_def collisionLoops_def)
  from assms(1) u1 u2 u3 u4 show ?thesis by (simp add: gameLoop_def)
qed

lemma exampleGame_tick:
  "gameLoop exampleConfig exampleEnv restingGame = restingGame"
  by (rule gameLoop_resting)
     (simp_all add: restingGame_def exampleGame_def exampleEnv_def restingEnemy_def enemyAt_def)

section \<open>Pausing\<close>

text \<open>
  Claim C3, as the code has it. The pause action is a toggle, not an idempotent
  operation: from Playing it yields Paused, and applied once more it sets the state back
  to Playing and runs one tick at once, so that after the second application the state
  is never Paused.
\<close>

theorem togglePause_toggles:
  assumes "state g = Playing"
  shows "state (togglePause cfg ev g) = Paused
    \<and> togglePause cfg ev' (togglePause cfg ev g) = gameLoop cfg ev' g
    \<and> state (togglePause cfg ev' (togglePause cfg ev g)) \<noteq> Paused"
proof -
  have p: "togglePause cfg ev g = g\<lparr>state := Paused\<rparr>"
    using assms by (simp add: togglePause_def)
  have q: "(g\<lparr>state := Paused\<rparr>)\<lparr>state := Playing\<rparr> = g"
    using assms by simp
  have "togglePause cfg ev' (g\<lparr>state := Paused\<rparr>)
        = gameLoop cfg ev' ((g\<lparr>state := Paused\<rparr>)\<lparr>state := Playing\<rparr>)"
    by (simp add: togglePause_def)
  then have r: "togglePause cfg ev' (togglePause cfg ev g) = gameLoop cfg ev' g"
    by (simp only: p q)
  from gameLoop_state [of cfg ev' g] assms have "state (gameLoop cfg ev' g) \<noteq> Paused"
    by auto
  with p r show ?thesis by simp
qed

text \<open>Claim C3, the amended statement on a concrete game.\<close>

theorem togglePause_toggles_witness:
  "state restingGame = Playing
   \<and> state (togglePause exampleConfig exampleEnv restingGame) = Paused
   \<and> togglePause exampleConfig exampleEnv
        (togglePause exampleConfig exampleEnv restingGame)
      = gameLoop exampleConfig exampleEnv restingGame"
proof -
  have h: "state restingGame = Playing"
    by (simp add: restingGame_def exampleGame_def)
  from togglePause_toggles [OF h, of exampleConfig exampleEnv exampleEnv] h
  show ?thesis by simp
qed

text \<open>
  Claim C3 as stated (the second pause action leaves the state Paused) fails: on a game
  in play with two resting enemies, pausing twice gives the state Playing.
\<close>

theorem togglePause_twice_counterexample:
  "state restingGame = Playing
   \<and> state (togglePause exampleConfig exampleEnv restingGame) = Paused
   \<and> state (togglePause exampleConfig exampleEnv
        (togglePause exampleConfig exampleEnv restingGame)) = Playing
   \<and> state (togglePause exampleConfig exampleEnv
        (togglePause exampleConfig exampleEnv restingGame)) \<noteq> Paused"
proof -
  have h: "state restingGame = Playing"
    by (simp add: restingGame_def exampleGame_def)
  then have p: "togglePause exampleConfig exampleEnv restingGame
      = restingGame\<lparr>state := Paused\<rparr>"
    by (simp add: togglePause_def)
  have q: "(restingGame\<lparr>state := Paused\<rparr>)\<lparr>state := Playing\<rparr>
      = restingGame"
    by (simp add: restingGame_def exampleGame_def)
  have "togglePause exampleConfig exampleEnv (restingGame\<lparr>state := Paused\<rparr>)
      = gameLoop exampleConfig exampleEnv
          ((restingGame\<lparr>state := Paused\<rparr>)\<lparr>state := Playing\<rparr>)"
    by (simp add: togglePause_def)
  then have "togglePause exampleConfig exampleEnv
        (togglePause exampleConfig exampleEnv restingGame)
      = restingGame"
    by (simp only: p q exampleGame_tick)
  with h p show ?thesis by simp
qed

section \<open>States in which nothing advances\<close>

text \<open>
  Claim C4. In every state other than Playing (Paused, GameOver, GameClear) the tick
  handler returns the game unchanged: positions, collections, score and lives stay as
  they are. In GameOver and GameClear every action other than the restart leaves the
  state as it is, so the game returns to Playing only through a restart.
\<close>

theorem frozen_unless_playing:
  "(state g = Paused \<or> state g = GameOver \<or> state g = GameClear \<longrightarrow> gameLoop cfg ev g = g)
   \<and> ((state g = GameOver \<or> state g = GameClear) \<and> state (step cfg a g) \<noteq> state g
        \<longrightarrow> (\<exists>ev'. a = RestartButton ev'))"
proof -
  have "state (step cfg a g) = state g"
    if "state g = GameOver \<or> state g = GameClear" and "\<forall>ev'. a \<noteq> RestartButton ev'"
    using that
    by (cases a) (auto simp: gameLoop_def togglePause_def start_def Let_def split: prod.splits)
  then show ?thesis by (auto simp: gameLoop_def)
qed

lemma restart_example:
  "state (restart exampleConfig exampleEnv overGame) = Playing"
proof -
  define g2 where "g2 =
    (initEnemies exampleConfig exampleEnv
       (overGame\<lparr>player := createPlayer exampleConfig\<rparr>))
      \<lparr>playerBullets := [], enemyBullets := [], score := 0,
       gameStartTime := nowStart exampleEnv, state := Playing,
       events := events (initEnemies exampleConfig exampleEnv
           (overGame\<lparr>player := createPlayer exampleConfig\<rparr>))
         @ [StartBGM]\<rparr>"
  have r: "restart exampleConfig exampleEnv overGame
      = gameLoop exampleConfig exampleEnv g2"
    by (simp add: restart_def g2_def Let_def)
  have i: "initEnemies exampleConfig exampleEnv
       (overGame\<lparr>player := createPlayer exampleConfig\<rparr>)
     = overGame
         \<lparr>player := createPlayer exampleConfig,
          enemyStore := (enemyStore overGame)
             (2 := enemyAt 200 150, 3 := enemyAt 400 150, 4 := enemyAt 600 150),
          allocated := 5, enemies := [2, 3, 4]\<rparr>"
    by (simp add: initEnemies_def initEnemiesLoop.simps exampleConfig_def exampleEnv_def
        overGame_def exampleGame_def enemyAt_def Let_def)
  note g2 = g2_def [unfolded i]
  have "gameLoop exampleConfig exampleEnv g2 = g2"
    by (rule gameLoop_resting)
       (simp_all add: g2 overGame_def exampleGame_def exampleEnv_def restingEnemy_def enemyAt_def
          createPlayer_def exampleConfig_def)
  then show ?thesis by (simp add: r) (simp add: g2_def)
qed

text \<open>
  Claim C4 on concrete games: a tick on a paused game, and a restart from GameOver.
\<close>

theorem frozen_unless_playing_witness:
  "state (restingGame\<lparr>state := Paused\<rparr>) = Paused
   \<and> gameLoop exampleConfig exampleEnv (restingGame\<lparr>state := Paused\<rparr>)
       = restingGame\<lparr>state := Paused\<rparr>
   \<and> state overGame = GameOver
   \<and> state (step exampleConfig (RestartButton exampleEnv) overGame) = Playing
   \<and> (\<exists>ev'. RestartButton exampleEnv = RestartButton ev')"
proof -
  have h1: "state (restingGame\<lparr>state := Paused\<rparr>) = Paused"
    by simp
  have h2: "state overGame = GameOver"
    by (simp add: overGame_def)
  have h3: "state (step exampleConfig (RestartButton exampleEnv) overGame) = Playing"
    by (simp add: restart_example)
  from h2 h3 have h4: "state (step exampleConfig (RestartButton exampleEnv) overGame)
      \<noteq> state overGame"
    by simp
  from frozen_unless_playing [of "restingGame\<lparr>state := Paused\<rparr>"
          exampleConfig exampleEnv "RestartButton exampleEnv"]
    frozen_unless_playing [of overGame exampleConfig exampleEnv "RestartButton exampleEnv"]
    h1 h2 h3 h4
  show ?thesis by blast
qed

section \<open>Clearing the round\<close>

text \<open>
  Claim C5, as the code has it. When collision resolution of a game in play leaves the
  enemy array empty, the outcome depends on whether the player was killed in the same
  pass. If not, the state becomes GameClear and exactly one score is reported to the
  high-score persistence in that step: the score plus 100 times the remaining lives
  (the score itself is not changed by the bonus). If the player was killed, the state is
  GameOver and what is reported is the score without any bonus.
\<close>

theorem gameClear_unless_killed:
  assumes "state g = Playing"
    and "enemies (checkCollisions cfg ev g) = []"
  shows "(state (checkCollisions cfg ev g) \<noteq> GameOver \<longrightarrow>
            state (checkCollisions cfg ev g) = GameClear
          \<and> savedScores (events (checkCollisions cfg ev g)) =
              savedScores (events g)
                @ [score (checkCollisions cfg ev g)
                     + lives (player (checkCollisions cfg ev g)) * 100]
          \<and> localStorage (checkCollisions cfg ev g) =
              snd (saveHighScore (engineSort ev)
                     (score (checkCollisions cfg ev g)
                        + lives (player (checkCollisions cfg ev g)) * 100)
                     (localStorage g)))
     \<and> (state (checkCollisions cfg ev g) = GameOver \<longrightarrow>
          (\<exists>k>0. savedScores (events (checkCollisions cfg ev g)) =
                   savedScores (events g) @ replicate k (score (checkCollisions cfg ev g))))"
proof -
  define g3 where "g3 = collisionLoops cfg ev g"
  have cc: "checkCollisions cfg ev g
      = (if enemies g3 = [] \<and> state g3 = Playing then gameClear ev g3 else g3)"
    by (simp add: checkCollisions_def g3_def Let_def)
  have st: "state g3 = Playing \<or> state g3 = GameOver"
    using collisionLoops_state [of cfg ev g] assms(1) by (simp add: g3_def)
  have clear: "state (checkCollisions cfg ev g) = GameClear
          \<and> savedScores (events (checkCollisions cfg ev g)) =
              savedScores (events g)
                @ [score (checkCollisions cfg ev g)
                     + lives (player (checkCollisions cfg ev g)) * 100]
          \<and> localStorage (checkCollisions cfg ev g) =
              snd (saveHighScore (engineSort ev)
                     (score (checkCollisions cfg ev g)
                        + lives (player (checkCollisions cfg ev g)) * 100)
                     (localStorage g))"
    if ng: "state (checkCollisions cfg ev g) \<noteq> GameOver"
  proof -
    from st ng cc have pl: "state g3 = Playing"
      by (auto split: if_splits)
    with assms(2) cc have em: "enemies g3 = []"
      by (auto split: if_splits)
    from pl em cc have r: "checkCollisions cfg ev g = gameClear ev g3" by simp
    from pl have "localStorage g3 = localStorage g"
      "savedScores (events g3) = savedScores (events g)"
      using collisionLoops_playing [of cfg ev g] by (simp_all add: g3_def)
    then show ?thesis
      by (simp add: r gameClear_events gameClear_storage)
  qed
  have over: "\<exists>k>0. savedScores (events (checkCollisions cfg ev g)) =
                   savedScores (events g) @ replicate k (score (checkCollisions cfg ev g))"
    if go: "state (checkCollisions cfg ev g) = GameOver"
  proof -
    from go cc have r: "checkCollisions cfg ev g = g3" and "state g3 = GameOver"
      by (auto split: if_splits)
    with collisionLoops_saved [of cfg ev g] assms(1) show ?thesis
      by (auto simp: r g3_def)
  qed
  from clear over show ?thesis by blast
qed

lemma lastEnemy_example:
  "checkCollisions exampleConfig exampleEnv lastEnemyGame
   = gameClear exampleEnv (noEnemyGame\<lparr>score := 100, events := [PlayHit]\<rparr>)"
  by (simp add: checkCollisions_def collisionLoops_def hitEnemyAt_def
      lastEnemyGame_def noEnemyGame_def exampleGame_def
      playerBulletAt_def enemyAt_def checkCollision_def distance_def splice1_def
      exampleConfig_def Let_def)

lemma bothHit_example:
  "checkCollisions exampleConfig exampleEnv bothHitGame
   = gameOver exampleEnv
       ((exampleGame 0 [] [] [])\<lparr>score := 100, events := [PlayHit, PlayDamage]\<rparr>)"
  by (simp add: checkCollisions_def collisionLoops_def hitEnemyAt_def hitPlayerAt_def
      bothHitGame_def exampleGame_def enemyBulletAt_def
      playerBulletAt_def enemyAt_def checkCollision_def distance_def splice1_def
      exampleConfig_def Let_def)

text \<open>
  Claim C5, the amended statement on two concrete games: the only enemy is hit by a
  player bullet, the score becomes 100 and, with 3 lives, 400 is reported; and the same
  with an enemy bullet that takes the player's only life, where 100 is reported.
\<close>

theorem gameClear_unless_killed_witness:
  "state lastEnemyGame = Playing
   \<and> enemies (checkCollisions exampleConfig exampleEnv lastEnemyGame) = []
   \<and> state (checkCollisions exampleConfig exampleEnv lastEnemyGame) = GameClear
   \<and> savedScores (events (checkCollisions exampleConfig exampleEnv lastEnemyGame))
       = [100 + 3 * 100]
   \<and> state bothHitGame = Playing
   \<and> enemies (checkCollisions exampleConfig exampleEnv bothHitGame) = []
   \<and> state (checkCollisions exampleConfig exampleEnv bothHitGame) = GameOver
   \<and> (\<exists>k>0. savedScores (events (checkCollisions exampleConfig exampleEnv bothHitGame))
              = replicate k 100)"
proof -
  have h1: "state lastEnemyGame = Playing"
    by (simp add: lastEnemyGame_def exampleGame_def)
  have h2: "enemies (checkCollisions exampleConfig exampleEnv lastEnemyGame) = []"
    by (simp add: lastEnemy_example) (simp add: noEnemyGame_def exampleGame_def)
  have h3: "state (checkCollisions exampleConfig exampleEnv lastEnemyGame) \<noteq> GameOver"
    by (simp add: lastEnemy_example)
  have v: "score (checkCollisions exampleConfig exampleEnv lastEnemyGame) = 100"
    "lives (player (checkCollisions exampleConfig exampleEnv lastEnemyGame)) = 3"
    "events lastEnemyGame = []"
    by (simp_all add: lastEnemy_example)
       (simp_all add: lastEnemyGame_def noEnemyGame_def exampleGame_def)
  have k1: "state bothHitGame = Playing"
    by (simp add: bothHitGame_def exampleGame_def)
  have k2: "enemies (checkCollisions exampleConfig exampleEnv bothHitGame) = []"
    by (simp add: bothHit_example) (simp add: exampleGame_def)
  have k3: "state (checkCollisions exampleConfig exampleEnv bothHitGame) = GameOver"
    by (simp add: bothHit_example)
  have w: "score (checkCollisions exampleConfig exampleEnv bothHitGame) = 100"
    "events bothHitGame = []"
    by (simp_all add: bothHit_example) (simp_all add: bothHitGame_def exampleGame_def)
  from gameClear_unless_killed [OF h1 h2] h3 v
  have a: "state (checkCollisions exampleConfig exampleEnv lastEnemyGame) = GameClear
   \<and> savedScores (events (checkCollisions exampleConfig exampleEnv lastEnemyGame))
       = [100 + 3 * 100]"
    by simp
  from gameClear_unless_killed [OF k1 k2] k3 w
  have b: "\<exists>k>0. savedScores (events (checkCollisions exampleConfig exampleEnv bothHitGame))
              = replicate k 100"
    by simp
  from a b h1 h2 k1 k2 k3 show ?thesis by blast
qed

text \<open>
  Claim C5 as stated (an enemy array that becomes empty while the state is Playing leads
  to GameClear) fails: the player bullet destroys the last enemy while the state is
  Playing, the enemy bullet then takes the player's only life in the same pass, and the
  state is GameOver, not GameClear; the score 100 is reported and no bonus.
\<close>

theorem gameClear_skipped_counterexample:
  "state bothHitGame = Playing
   \<and> enemies bothHitGame = [0]
   \<and> enemies (checkCollisions exampleConfig exampleEnv bothHitGame) = []
   \<and> state (checkCollisions exampleConfig exampleEnv bothHitGame) = GameOver
   \<and> state (checkCollisions exampleConfig exampleEnv bothHitGame) \<noteq> GameClear
   \<and> savedScores (events (checkCollisions exampleConfig exampleEnv bothHitGame)) = [100]"
  by (simp add: bothHit_example gameOver_events)
     (simp add: bothHitGame_def exampleGame_def)

section \<open>Starting a session\<close>

text \<open>
  Claim C10. \<open>start\<close> calls \<open>saveHighScore(0)\<close> before anything else happens: the
  call is the first event it adds, and it rewrites the stored list. The storage after
  \<open>start\<close> is the storage with the rewritten list, followed by the saves of the first
  tick, of which there are none when the game is still in play. The rewritten list is
  the first three entries of the stored array extended by 0 and sorted; for a stored
  array of numbers these are the first three of the stored numbers and 0 in descending
  order, so the stored scores are kept and a 0 is among them whenever fewer than three
  stored scores exceed 0; with nothing stored it is [0, 0, 0].
\<close>

theorem start_saves_zero:
  "\<exists>written rest.
      events (start cfg ev g) = events g @ SaveHighScore 0 # StartBGM # rest
    \<and> localStorage (start cfg ev g) =
        applySaves (engineSort ev) (savedScores rest)
          ((localStorage g)(HIGH_SCORES_KEY \<mapsto> JSONText (JArray written)))
    \<and> (state (start cfg ev g) = Playing \<longrightarrow> savedScores rest = [])
    \<and> (\<forall>arr. localStorage g HIGH_SCORES_KEY = Some (JSONText (JArray arr)) \<longrightarrow>
          written = take 3 (sortDesc (engineSort ev) (arr @ [JNumber 0])))
    \<and> (\<forall>vs. localStorage g HIGH_SCORES_KEY = Some (JSONText (JArray (map JNumber vs))) \<longrightarrow>
          written = map JNumber (take 3 (sort_key (\<lambda>v. - v) (vs @ [0])))
          \<and> (length (filter (\<lambda>v. 0 < v) vs) < 3 \<longrightarrow> JNumber 0 \<in> set written))
    \<and> (localStorage g HIGH_SCORES_KEY = None \<longrightarrow> written = [JNumber 0, JNumber 0, JNumber 0])"
proof -
  define written where "written = fst (saveHighScore (engineSort ev) 0 (localStorage g))"
  define g1 where "g1 = g\<lparr>localStorage := snd (saveHighScore (engineSort ev) 0 (localStorage g)),
                 gameStartTime := nowStart ev,
                 events := events g @ [SaveHighScore 0, StartBGM]\<rparr>"
  have st: "start cfg ev g = gameLoop cfg ev g1"
    by (simp add: start_def g1_def split: prod.splits)
  have s1: "localStorage g1 = (localStorage g)(HIGH_SCORES_KEY \<mapsto> JSONText (JArray written))"
    by (simp add: g1_def written_def saveHighScore_storage)
  from gameLoop_traced [of ev g1 cfg] obtain rest where
    e: "events (gameLoop cfg ev g1) = events g1 @ rest"
    and l: "localStorage (gameLoop cfg ev g1)
              = applySaves (engineSort ev) (savedScores rest) (localStorage g1)"
    by (auto simp: traced_def)
  have a: "events (start cfg ev g) = events g @ SaveHighScore 0 # StartBGM # rest"
    by (simp add: st e) (simp add: g1_def)
  have b: "localStorage (start cfg ev g) =
        applySaves (engineSort ev) (savedScores rest)
          ((localStorage g)(HIGH_SCORES_KEY \<mapsto> JSONText (JArray written)))"
    by (simp add: st l s1)
  have c: "savedScores rest = []" if "state (start cfg ev g) = Playing"
  proof -
    from that have "state (gameLoop cfg ev g1) = Playing" by (simp add: st)
    then have "savedScores (events (gameLoop cfg ev g1)) = savedScores (events g1)"
      using gameLoop_playing [of cfg ev g1] by simp
    then show ?thesis by (simp add: e)
  qed
  have d: "written = map JNumber (take 3 (sort_key (\<lambda>v. - v) (vs @ [0])))
          \<and> (length (filter (\<lambda>v. 0 < v) vs) < 3 \<longrightarrow> JNumber 0 \<in> set written)"
    if "localStorage g HIGH_SCORES_KEY = Some (JSONText (JArray (map JNumber vs)))" for vs
  proof -
    from that have "getHighScores (localStorage g) = map JNumber vs"
      by (rule getHighScores_array)
    then have "numbersOf (getHighScores (localStorage g)) = Some vs" by simp
    from saveHighScore_numbers [OF this, of "engineSort ev" 0]
    have w: "written = map JNumber (take 3 (sort_key (\<lambda>v. - v) (vs @ [0])))"
      by (simp add: written_def)
    moreover have "JNumber 0 \<in> set written" if "length (filter (\<lambda>v. 0 < v) vs) < 3"
      using top_three_contains [OF that] by (simp add: w)
    ultimately show ?thesis by blast
  qed
  have f: "written = [JNumber 0, JNumber 0, JNumber 0]"
    if "localStorage g HIGH_SCORES_KEY = None"
  proof -
    from that have "getHighScores (localStorage g) = map JNumber [0, 0, 0]"
      by (simp add: getHighScores_missing)
    then have "numbersOf (getHighScores (localStorage g)) = Some [0, 0, 0]"
      by (simp only: numbersOf_map)
    from saveHighScore_numbers [OF this, of "engineSort ev" 0]
    show ?thesis by (simp add: written_def)
  qed
  show ?thesis
  proof (intro exI [of _ written] exI [of _ rest] conjI allI impI)
    show "events (start cfg ev g) = events g @ SaveHighScore 0 # StartBGM # rest"
      by (rule a)
    show "localStorage (start cfg ev g) =
        applySaves (engineSort ev) (savedScores rest)
          ((localStorage g)(HIGH_SCORES_KEY \<mapsto> JSONText (JArray written)))"
      by (rule b)
    show "savedScores rest = []" if "state (start cfg ev g) = Playing"
      using that by (rule c)
    show "written = take 3 (sortDesc (engineSort ev) (arr @ [JNumber 0]))"
      if "localStorage g HIGH_SCORES_KEY = Some (JSONText (JArray arr))" for arr
      using getHighScores_array [of "localStorage g" arr] that
      by (simp add: written_def saveHighScore_result)
    show "written = map JNumber (take 3 (sort_key (\<lambda>v. - v) (vs @ [0])))"
      if "localStorage g HIGH_SCORES_KEY = Some (JSONText (JArray (map JNumber vs)))" for vs
      using d [OF that] by blast
    show "JNumber 0 \<in> set written"
      if "localStorage g HIGH_SCORES_KEY = Some (JSONText (JArray (map JNumber vs)))"
        and "length (filter (\<lambda>v. 0 < v) vs) < 3" for vs
      using d [OF that(1)] that(2) by blast
    show "written = [JNumber 0, JNumber 0, JNumber 0]"
      if "localStorage g HIGH_SCORES_KEY = None"
      using that by (rule f)
  qed
qed

lemma storedGame_start:
  "state (start exampleConfig exampleEnv storedGame) = Playing"
proof -
  define g1 where "g1 = storedGame
       \<lparr>localStorage := snd (saveHighScore (engineSort exampleEnv) 0 (localStorage storedGame)),
        gameStartTime := nowStart exampleEnv,
        events := events storedGame @ [SaveHighScore 0, StartBGM]\<rparr>"
  have "start exampleConfig exampleEnv storedGame = gameLoop exampleConfig exampleEnv g1"
    by (simp add: start_def g1_def split: prod.splits)
  moreover have "gameLoop exampleConfig exampleEnv g1 = g1"
    by (rule gameLoop_resting)
       (simp_all add: g1_def storedGame_def exampleGame_def exampleEnv_def restingEnemy_def
          enemyAt_def)
  moreover have "state g1 = Playing"
    by (simp add: g1_def storedGame_def exampleGame_def)
  ultimately show ?thesis by simp
qed

text \<open>
  Claim C10 on a concrete game with the stored list [500, 300]: after \<open>start\<close> the
  storage holds [500, 300, 0].
\<close>

theorem start_saves_zero_witness:
  "state (start exampleConfig exampleEnv storedGame) = Playing
   \<and> localStorage storedGame HIGH_SCORES_KEY
       = Some (JSONText (JArray (map JNumber [500, 300])))
   \<and> length (filter (\<lambda>v. 0 < v) [500, 300 :: real]) < 3
   \<and> localStorage (start exampleConfig exampleEnv storedGame)
       = [HIGH_SCORES_KEY \<mapsto> JSONText (JArray [JNumber 500, JNumber 300, JNumber 0])]
   \<and> (\<exists>rest. events (start exampleConfig exampleEnv storedGame)
                = SaveHighScore 0 # StartBGM # rest)"
proof -
  have h: "state (start exampleConfig exampleEnv storedGame) = Playing"
    by (rule storedGame_start)
  have s: "localStorage storedGame
             = [HIGH_SCORES_KEY \<mapsto> JSONText (JArray (map JNumber [500, 300]))]"
    "events storedGame = []"
    by (simp_all add: storedGame_def exampleGame_def)
  then have k: "localStorage storedGame HIGH_SCORES_KEY
       = Some (JSONText (JArray (map JNumber [500, 300])))"
    by simp
  from start_saves_zero [of exampleConfig exampleEnv storedGame]
  obtain written rest where
    e: "events (start exampleConfig exampleEnv storedGame)
          = events storedGame @ SaveHighScore 0 # StartBGM # rest"
    and l: "localStorage (start exampleConfig exampleEnv storedGame) =
        applySaves (engineSort exampleEnv) (savedScores rest)
          ((localStorage storedGame)(HIGH_SCORES_KEY \<mapsto> JSONText (JArray written)))"
    and p: "state (start exampleConfig exampleEnv storedGame) = Playing \<longrightarrow> savedScores rest = []"
    and w: "\<forall>vs. localStorage storedGame HIGH_SCORES_KEY
                   = Some (JSONText (JArray (map JNumber vs))) \<longrightarrow>
          written = map JNumber (take 3 (sort_key (\<lambda>v. - v) (vs @ [0])))
          \<and> (length (filter (\<lambda>v. 0 < v) vs) < 3 \<longrightarrow> JNumber 0 \<in> set written)"
    by blast
  from w k have "written = map JNumber (take 3 (sort_key (\<lambda>v. - v) ([500, 300] @ [0])))"
    by blast
  then have wr: "written = [JNumber 500, JNumber 300, JNumber 0]"
    by simp
  from p h have "savedScores rest = []" by simp
  with l have "localStorage (start exampleConfig exampleEnv storedGame)
      = [HIGH_SCORES_KEY \<mapsto> JSONText (JArray [JNumber 500, JNumber 300, JNumber 0])]"
    by (simp add: s wr)
  with h k e s(2) show ?thesis by simp
qed

section \<open>Loading and saving high scores\<close>




section \<open>The player's shot\<close>

lemma closest_foldl:
  fixes d :: "enemy_ref \<Rightarrow> real"
  defines "f \<equiv> (\<lambda>closest enemy. if d enemy < d closest then enemy else closest)"
  shows "foldl f a es \<in> set (a # es) \<and> (\<forall>e\<in>set (a # es). d (foldl f a es) \<le> d e)"
proof (induction es arbitrary: a)
  case Nil
  show ?case by simp
next
  case (Cons e es)
  have fa: "f a e = a \<or> f a e = e" and le: "d (f a e) \<le> d a" "d (f a e) \<le> d e"
    by (auto simp: f_def)
  from Cons.IH [of "f a e"]
  have m: "foldl f (f a e) es \<in> set (f a e # es)"
    and mn: "\<forall>e'\<in>set (f a e # es). d (foldl f (f a e) es) \<le> d e'" by simp_all
  from m fa have "foldl f a (e # es) \<in> set (a # e # es)" by auto
  moreover from mn le have "\<forall>e'\<in>set (a # e # es). d (foldl f a (e # es)) \<le> d e'"
    by auto
  ultimately show ?case by blast
qed

lemma getClosestEnemy_empty: "enemies g = [] \<Longrightarrow> getClosestEnemy g = None"
  by (simp add: getClosestEnemy_def)

lemma getClosestEnemy_nearest:
  assumes "enemies g \<noteq> []"
  shows "\<exists>target\<in>set (enemies g). getClosestEnemy g = Some target
     \<and> (\<forall>e\<in>set (enemies g).
           distance (position (player g)) (position (enemyStore g target))
             \<le> distance (position (player g)) (position (enemyStore g e)))"
proof -
  from assms obtain a es where ae: "enemies g = a # es" by (cases "enemies g") auto
  define d where "d = (\<lambda>r. distance (position (player g)) (position (enemyStore g r)))"
  define f where "f = (\<lambda>closest enemy. if d enemy < d closest then enemy else closest)"
  have "getClosestEnemy g = Some (foldl f a es)"
    by (simp add: getClosestEnemy_def ae f_def d_def Let_def)
  moreover have "foldl f a es \<in> set (a # es) \<and> (\<forall>e\<in>set (a # es). d (foldl f a es) \<le> d e)"
    unfolding f_def by (rule closest_foldl)
  ultimately show ?thesis by (auto simp: ae d_def)
qed

text \<open>
  Claim C7. When the cooldown has not elapsed or there is no enemy, \<open>shootPlayerBullet\<close>
  returns the game unchanged: no bullet, no error, and the time of the last shot stays
  as it was. Otherwise it appends exactly one bullet, at the player's position and
  aimed at an enemy of the array that is nearest to the player, and sets the time of the
  last shot to the current time.
\<close>

theorem shootPlayerBullet_cases:
  "(nowShoot ev - Player.lastShotTime (player g) < playerShootCooldown cfg \<or> enemies g = []
      \<longrightarrow> shootPlayerBullet cfg ev g = g)
   \<and> (\<not> nowShoot ev - Player.lastShotTime (player g) < playerShootCooldown cfg
        \<and> enemies g \<noteq> [] \<longrightarrow>
        (\<exists>target\<in>set (enemies g).
           (\<forall>e\<in>set (enemies g).
               distance (position (player g)) (position (enemyStore g target))
                 \<le> distance (position (player g)) (position (enemyStore g e)))
           \<and> shootPlayerBullet cfg ev g =
               g\<lparr>player := (player g)\<lparr>Player.lastShotTime := nowShoot ev\<rparr>,
                 playerBullets := playerBullets g @
                   [\<lparr>position = position (player g), velocity = \<lparr>x = 0, y = 0\<rparr>, radius = 4,
                     isPlayerBullet = True, targetEnemy = Some target\<rparr>],
                 events := events g @ [PlayShoot]\<rparr>))"
proof -
  have a: "shootPlayerBullet cfg ev g = g"
    if "nowShoot ev - Player.lastShotTime (player g) < playerShootCooldown cfg \<or> enemies g = []"
    using that by (auto simp: shootPlayerBullet_def Let_def getClosestEnemy_empty)
  have b: "\<exists>target\<in>set (enemies g).
           (\<forall>e\<in>set (enemies g).
               distance (position (player g)) (position (enemyStore g target))
                 \<le> distance (position (player g)) (position (enemyStore g e)))
           \<and> shootPlayerBullet cfg ev g =
               g\<lparr>player := (player g)\<lparr>Player.lastShotTime := nowShoot ev\<rparr>,
                 playerBullets := playerBullets g @
                   [\<lparr>position = position (player g), velocity = \<lparr>x = 0, y = 0\<rparr>, radius = 4,
                     isPlayerBullet = True, targetEnemy = Some target\<rparr>],
                 events := events g @ [PlayShoot]\<rparr>"
    if c: "\<not> nowShoot ev - Player.lastShotTime (player g) < playerShootCooldown cfg"
      and e: "enemies g \<noteq> []"
  proof -
    from getClosestEnemy_nearest [OF e] obtain target where t: "target \<in> set (enemies g)"
      "getClosestEnemy g = Some target"
      "\<forall>e\<in>set (enemies g).
           distance (position (player g)) (position (enemyStore g target))
             \<le> distance (position (player g)) (position (enemyStore g e))" by blast
    have "shootPlayerBullet cfg ev g =
               g\<lparr>player := (player g)\<lparr>Player.lastShotTime := nowShoot ev\<rparr>,
                 playerBullets := playerBullets g @
                   [\<lparr>position = position (player g), velocity = \<lparr>x = 0, y = 0\<rparr>, radius = 4,
                     isPlayerBullet = True, targetEnemy = Some target\<rparr>],
                 events := events g @ [PlayShoot]\<rparr>"
      using c t(2) by (simp add: shootPlayerBullet_def Let_def)
    with t(1,3) show ?thesis by blast
  qed
  from a b show ?thesis by blast
qed

text \<open>
  Claim C7 on concrete games: a shot during the cooldown, a shot with no enemy, and a
  shot that is fired.
\<close>

theorem shootPlayerBullet_cases_witness:
  "shootPlayerBullet exampleConfig (exampleEnv\<lparr>nowShoot := 100\<rparr>) restingGame
     = restingGame
   \<and> shootPlayerBullet exampleConfig exampleEnv noEnemyGame = noEnemyGame
   \<and> (\<exists>target\<in>{0, 1}.
        shootPlayerBullet exampleConfig exampleEnv restingGame
          = restingGame
              \<lparr>player := (player restingGame)\<lparr>Player.lastShotTime := 1000\<rparr>,
               playerBullets := [playerBulletAt 400 550 \<lparr>x = 0, y = 0\<rparr> target],
               events := [PlayShoot]\<rparr>)"
proof -
  have h1: "nowShoot (exampleEnv\<lparr>nowShoot := 100\<rparr>)
              - Player.lastShotTime (player restingGame)
            < playerShootCooldown exampleConfig"
    by (simp add: restingGame_def noEnemyGame_def exampleGame_def exampleConfig_def)
  have h2: "enemies noEnemyGame = []"
    by (simp add: restingGame_def noEnemyGame_def exampleGame_def)
  have h3: "\<not> nowShoot exampleEnv - Player.lastShotTime (player restingGame)
              < playerShootCooldown exampleConfig"
    "enemies restingGame \<noteq> []"
    by (simp_all add: restingGame_def noEnemyGame_def exampleGame_def exampleConfig_def exampleEnv_def)
  have v: "set (enemies restingGame) = {0, 1}"
    "playerBullets restingGame = []"
    "events restingGame = []"
    "position (player restingGame) = \<lparr>x = 400, y = 550\<rparr>"
    "nowShoot exampleEnv = 1000"
    by (simp_all add: restingGame_def noEnemyGame_def exampleGame_def exampleEnv_def)
  from shootPlayerBullet_cases [of "exampleEnv\<lparr>nowShoot := 100\<rparr>" "restingGame" exampleConfig]
    h1 have a: "shootPlayerBullet exampleConfig (exampleEnv\<lparr>nowShoot := 100\<rparr>) restingGame
     = restingGame" by blast
  from shootPlayerBullet_cases [of exampleEnv "noEnemyGame" exampleConfig]
    h2 have b: "shootPlayerBullet exampleConfig exampleEnv noEnemyGame = noEnemyGame"
    by blast
  from shootPlayerBullet_cases [of exampleEnv "restingGame" exampleConfig]
    h3 have "\<exists>target\<in>set (enemies restingGame).
        shootPlayerBullet exampleConfig exampleEnv restingGame
          = restingGame
              \<lparr>player := (player restingGame)\<lparr>Player.lastShotTime := nowShoot exampleEnv\<rparr>,
               playerBullets := playerBullets restingGame @
                   [\<lparr>position = position (player restingGame),
                     velocity = \<lparr>x = 0, y = 0\<rparr>, radius = 4,
                     isPlayerBullet = True, targetEnemy = Some target\<rparr>],
               events := events restingGame @ [PlayShoot]\<rparr>"
    by blast
  then have c: "\<exists>target\<in>{0, 1}.
        shootPlayerBullet exampleConfig exampleEnv restingGame
          = restingGame
              \<lparr>player := (player restingGame)\<lparr>Player.lastShotTime := 1000\<rparr>,
               playerBullets := [playerBulletAt 400 550 \<lparr>x = 0, y = 0\<rparr> target],
               events := [PlayShoot]\<rparr>"
    unfolding v playerBulletAt_def by simp
  from a b c show ?thesis by blast
qed

section \<open>The enemy volley\<close>

lemma shootEnemyBulletsLoop_bullets:
  "enemyBullets (shootEnemyBulletsLoop cfg enemy angleStep i g) =
     enemyBullets g @
       map (\<lambda>j. \<lparr>position = position enemy,
                  velocity = \<lparr>x = cos (angleStep * real j) * enemyBulletSpeed cfg,
                              y = sin (angleStep * real j) * enemyBulletSpeed cfg\<rparr>,
                  radius = 3, isPlayerBullet = False, targetEnemy = None\<rparr>)
           [i..<enemyBulletDirections cfg]"
proof (induction cfg enemy angleStep i g rule: shootEnemyBulletsLoop.induct)
  case (1 cfg enemy angleStep i g)
  show ?case
  proof (cases "i < enemyBulletDirections cfg")
    case True
    then have u: "[i..<enemyBulletDirections cfg] = i # [i + 1..<enemyBulletDirections cfg]"
      by (simp add: upt_conv_Cons)
    from "1.IH" [OF True refl refl refl] True show ?thesis
      by (subst shootEnemyBulletsLoop.simps) (simp add: Let_def u del: upt_Suc)
  next
    case False
    then show ?thesis by (subst shootEnemyBulletsLoop.simps) simp
  qed
qed

text \<open>
  Claim C8. With a direction count \<open>N\<close> of at least 1 (and a bullet speed that is not
  negative, as the configuration requires), a volley appends exactly \<open>N\<close> enemy
  bullets to the existing ones. The \<open>i\<close>-th of them, for \<open>i\<close> from 0 to \<open>N - 1\<close>,
  starts at the enemy's position with velocity speed times (cos, sin) of the angle
  \<open>i * 2 * pi / N\<close>, so the angles are evenly spaced and every velocity has the
  configured speed as its magnitude. Numbers are real numbers here.
\<close>

theorem shootEnemyBullets_volley:
  assumes "1 \<le> enemyBulletDirections cfg" and "0 \<le> enemyBulletSpeed cfg"
  shows "length (enemyBullets (shootEnemyBullets cfg enemy g))
           = length (enemyBullets g) + enemyBulletDirections cfg
    \<and> take (length (enemyBullets g)) (enemyBullets (shootEnemyBullets cfg enemy g))
           = enemyBullets g
    \<and> (\<forall>i<enemyBulletDirections cfg.
          let b = enemyBullets (shootEnemyBullets cfg enemy g) ! (length (enemyBullets g) + i);
              angle = real i * (2 * pi / real (enemyBulletDirections cfg))
          in velocity b = \<lparr>x = enemyBulletSpeed cfg * cos angle,
                            y = enemyBulletSpeed cfg * sin angle\<rparr>
             \<and> position b = position enemy
             \<and> sqrt ((x (velocity b))\<^sup>2 + (y (velocity b))\<^sup>2) = enemyBulletSpeed cfg)"
proof -
  define N where "N = enemyBulletDirections cfg"
  define s where "s = enemyBulletSpeed cfg"
  define step where "step = (pi * 2) / real N"
  define mk where "mk = (\<lambda>j. \<lparr>position = position enemy,
                  velocity = \<lparr>x = cos (step * real j) * s, y = sin (step * real j) * s\<rparr>,
                  radius = 3, isPlayerBullet = False, targetEnemy = None :: enemy_ref option\<rparr>)"
  have eb: "enemyBullets (shootEnemyBullets cfg enemy g) = enemyBullets g @ map mk [0..<N]"
    by (simp add: shootEnemyBullets_def shootEnemyBulletsLoop_bullets mk_def step_def N_def s_def)
  have mag: "sqrt ((s * cos a)\<^sup>2 + (s * sin a)\<^sup>2) = s" for a
  proof -
    have "(s * cos a)\<^sup>2 + (s * sin a)\<^sup>2 = s\<^sup>2 * ((cos a)\<^sup>2 + (sin a)\<^sup>2)"
      by (simp only: power_mult_distrib distrib_left)
    also have "\<dots> = s\<^sup>2" unfolding sin_cos_squared_add2 by simp
    finally show ?thesis using assms(2) by (simp add: s_def)
  qed
  have nth: "(enemyBullets g @ map mk [0..<N]) ! (length (enemyBullets g) + i) = mk i"
    if "i < N" for i
    using that by (simp add: nth_append)
  have "\<forall>i<N. let b = (enemyBullets g @ map mk [0..<N]) ! (length (enemyBullets g) + i);
              angle = real i * (2 * pi / real N)
          in velocity b = \<lparr>x = s * cos angle, y = s * sin angle\<rparr>
             \<and> position b = position enemy
             \<and> sqrt ((x (velocity b))\<^sup>2 + (y (velocity b))\<^sup>2) = s"
  proof (intro allI impI)
    fix i assume "i < N"
    have st: "step * real i = real i * (2 * pi / real N)"
      by (simp add: step_def)
    show "let b = (enemyBullets g @ map mk [0..<N]) ! (length (enemyBullets g) + i);
              angle = real i * (2 * pi / real N)
          in velocity b = \<lparr>x = s * cos angle, y = s * sin angle\<rparr>
             \<and> position b = position enemy
             \<and> sqrt ((x (velocity b))\<^sup>2 + (y (velocity b))\<^sup>2) = s"
      unfolding nth [OF \<open>i < N\<close>] Let_def
      by (simp add: mk_def st mag mult.commute)
  qed
  then show ?thesis
    unfolding eb by (simp add: N_def s_def)
qed

text \<open>Claim C8 on a concrete volley of eight bullets.\<close>

theorem shootEnemyBullets_volley_witness:
  "1 \<le> enemyBulletDirections exampleConfig \<and> 0 \<le> enemyBulletSpeed exampleConfig
   \<and> length (enemyBullets (shootEnemyBullets exampleConfig (enemyAt 100 100)
               volleyGame)) = 1 + 8
   \<and> velocity (enemyBullets (shootEnemyBullets exampleConfig (enemyAt 100 100)
               volleyGame) ! (1 + 2))
        = \<lparr>x = 3 * cos (2 * (2 * pi / 8)), y = 3 * sin (2 * (2 * pi / 8))\<rparr>
   \<and> position (enemyBullets (shootEnemyBullets exampleConfig (enemyAt 100 100)
               volleyGame) ! (1 + 2))
        = \<lparr>x = 100, y = 100\<rparr>"
proof -
  have h1: "1 \<le> enemyBulletDirections exampleConfig"
    and h2: "0 \<le> enemyBulletSpeed exampleConfig"
    by (simp_all add: exampleConfig_def)
  have v: "enemyBulletDirections exampleConfig = 8" "enemyBulletSpeed exampleConfig = 3"
    "length (enemyBullets volleyGame) = 1"
    "position (enemyAt 100 100) = \<lparr>x = 100, y = 100\<rparr>"
    by (simp_all add: exampleConfig_def volleyGame_def exampleGame_def enemyAt_def)
  note t = shootEnemyBullets_volley [OF h1 h2, of "enemyAt 100 100"
      volleyGame, unfolded v Let_def]
  from t have len: "length (enemyBullets (shootEnemyBullets exampleConfig (enemyAt 100 100)
               volleyGame)) = 1 + 8" by blast
  from t have "\<forall>i<8. velocity (enemyBullets (shootEnemyBullets exampleConfig (enemyAt 100 100)
               volleyGame) ! (1 + i))
        = \<lparr>x = 3 * cos (real i * (2 * pi / real 8)), y = 3 * sin (real i * (2 * pi / real 8))\<rparr>
      \<and> position (enemyBullets (shootEnemyBullets exampleConfig (enemyAt 100 100)
               volleyGame) ! (1 + i))
        = \<lparr>x = 100, y = 100\<rparr>" by blast
  then have "(2::nat) < 8 \<longrightarrow> velocity (enemyBullets (shootEnemyBullets exampleConfig (enemyAt 100 100)
               volleyGame) ! (1 + 2))
        = \<lparr>x = 3 * cos (real 2 * (2 * pi / real 8)), y = 3 * sin (real 2 * (2 * pi / real 8))\<rparr>
      \<and> position (enemyBullets (shootEnemyBullets exampleConfig (enemyAt 100 100)
               volleyGame) ! (1 + 2))
        = \<lparr>x = 100, y = 100\<rparr>" by (rule spec)
  with h1 h2 len show ?thesis by simp
qed

section \<open>Homing player bullets\<close>

lemma sqrt_less_numeral: "0 \<le> a \<Longrightarrow> 0 \<le> b \<Longrightarrow> sqrt a < b \<longleftrightarrow> a < b\<^sup>2"
  by (metis real_sqrt_less_iff real_sqrt_abs abs_of_nonneg)

lemma sqrt_576: "sqrt 576 = 24"
  by (rule real_sqrt_unique) simp_all

lemma sqrt_256: "sqrt 256 = 16"
  by (rule real_sqrt_unique) simp_all

lemma sqrt_64: "sqrt 64 = 8"
  by (rule real_sqrt_unique) simp_all

text \<open>
  How a stale target arises: the first bullet destroys enemy number 0, which leaves the
  enemy array; the second bullet keeps its reference to the enemy object and flies on
  to the place where the enemy was.
\<close>

lemma scenario_collision:
  "checkCollisions exampleConfig exampleEnv scenarioGame
   = (exampleGame 3 [1] [playerBulletAt 100 124 \<lparr>x = 0, y = - 8\<rparr> 0] [])
       \<lparr>score := 100, events := [PlayHit]\<rparr>"
  by (simp add: checkCollisions_def collisionLoops_def hitEnemyAt_def cancelBulletAt_def
      scenarioGame_def staleTargetGame_def exampleGame_def
      playerBulletAt_def enemyAt_def checkCollision_def distance_def splice1_def
      exampleConfig_def Let_def sqrt_less_numeral)

lemma scenario_flight:
  "updateBullets exampleConfig ((exampleGame 3 [1] [playerBulletAt 100 124 \<lparr>x = 0, y = - 8\<rparr> 0] [])
       \<lparr>score := 100, events := [PlayHit]\<rparr>)
   = (exampleGame 3 [1] [playerBulletAt 100 116 \<lparr>x = 0, y = - 8\<rparr> 0] [])
       \<lparr>score := 100, events := [PlayHit]\<rparr>"
  "updateBullets exampleConfig ((exampleGame 3 [1] [playerBulletAt 100 116 \<lparr>x = 0, y = - 8\<rparr> 0] [])
       \<lparr>score := 100, events := [PlayHit]\<rparr>)
   = (exampleGame 3 [1] [playerBulletAt 100 108 \<lparr>x = 0, y = - 8\<rparr> 0] [])
       \<lparr>score := 100, events := [PlayHit]\<rparr>"
  "updateBullets exampleConfig ((exampleGame 3 [1] [playerBulletAt 100 108 \<lparr>x = 0, y = - 8\<rparr> 0] [])
       \<lparr>score := 100, events := [PlayHit]\<rparr>)
   = staleTargetGame"
  by (simp_all add: updateBullets_def scenarioGame_def staleTargetGame_def exampleGame_def playerBulletAt_def
      homePlayerBullet_def getDirectionVector_def normalize_def enemyAt_def exampleConfig_def
      Let_def sqrt_576 sqrt_256 sqrt_64)

lemma staleTargetGame_arises:
  "updateBullets exampleConfig (updateBullets exampleConfig (updateBullets exampleConfig
     (checkCollisions exampleConfig exampleEnv scenarioGame))) = staleTargetGame"
  by (simp only: scenario_collision scenario_flight)

text \<open>
  Claim C1, as the code has it. The per-tick bullet update recomputes the velocity of
  every player bullet that holds a target reference, to the direction from the bullet
  to the position stored in the referenced enemy object times the player bullet speed,
  whether or not that enemy is still in the enemy array; only a bullet without a target
  reference keeps its velocity. Every bullet then moves by its velocity, and the
  bullets that left the playfield are dropped.
\<close>

theorem updateBullets_homing:
  "playerBullets (updateBullets cfg g) =
     filter (\<lambda>b. 0 \<le> x (position b) \<and> x (position b) \<le> canvasWidth cfg
                \<and> 0 \<le> y (position b) \<and> y (position b) \<le> canvasHeight cfg)
       (map (homePlayerBullet cfg (enemyStore g)) (playerBullets g))
   \<and> (\<forall>b\<in>set (playerBullets g).
        let b' = homePlayerBullet cfg (enemyStore g) b
        in targetEnemy b' = targetEnemy b
           \<and> position b' = \<lparr>x = x (position b) + x (velocity b'),
                             y = y (position b) + y (velocity b')\<rparr>
           \<and> (case targetEnemy b of
                 Some target \<Rightarrow>
                   velocity b' =
                     \<lparr>x = x (getDirectionVector (position b) (position (enemyStore g target)))
                            * playerBulletSpeed cfg,
                      y = y (getDirectionVector (position b) (position (enemyStore g target)))
                            * playerBulletSpeed cfg\<rparr>
               | None \<Rightarrow> velocity b' = velocity b))"
  by (simp add: updateBullets_def homePlayerBullet_def Let_def split: option.splits)

text \<open>Claim C1, the amended statement on the bullet of a concrete game.\<close>

theorem updateBullets_homing_witness:
  "playerBulletAt 100 100 \<lparr>x = 0, y = - 8\<rparr> 0 \<in> set (playerBullets staleTargetGame)
   \<and> 0 \<notin> set (enemies staleTargetGame)
   \<and> velocity (homePlayerBullet exampleConfig (enemyStore staleTargetGame)
        (playerBulletAt 100 100 \<lparr>x = 0, y = - 8\<rparr> 0))
      = \<lparr>x = x (getDirectionVector \<lparr>x = 100, y = 100\<rparr> \<lparr>x = 100, y = 100\<rparr>) * 8,
         y = y (getDirectionVector \<lparr>x = 100, y = 100\<rparr> \<lparr>x = 100, y = 100\<rparr>) * 8\<rparr>"
proof -
  have h: "playerBulletAt 100 100 \<lparr>x = 0, y = - 8\<rparr> 0 \<in> set (playerBullets staleTargetGame)"
    by (simp add: scenarioGame_def staleTargetGame_def exampleGame_def)
  have e: "0 \<notin> set (enemies staleTargetGame)"
    by (simp add: scenarioGame_def staleTargetGame_def exampleGame_def)
  have v: "targetEnemy (playerBulletAt 100 100 \<lparr>x = 0, y = - 8\<rparr> 0) = Some 0"
    "position (playerBulletAt 100 100 \<lparr>x = 0, y = - 8\<rparr> 0) = \<lparr>x = 100, y = 100\<rparr>"
    "position (enemyStore staleTargetGame 0) = \<lparr>x = 100, y = 100\<rparr>"
    "playerBulletSpeed exampleConfig = 8"
    by (simp_all add: playerBulletAt_def scenarioGame_def staleTargetGame_def exampleGame_def enemyAt_def exampleConfig_def)
  from updateBullets_homing [of exampleConfig staleTargetGame]
  have "\<forall>b\<in>set (playerBullets staleTargetGame).
        let b' = homePlayerBullet exampleConfig (enemyStore staleTargetGame) b
        in (case targetEnemy b of
                 Some target \<Rightarrow>
                   velocity b' =
                     \<lparr>x = x (getDirectionVector (position b)
                               (position (enemyStore staleTargetGame target)))
                            * playerBulletSpeed exampleConfig,
                      y = y (getDirectionVector (position b)
                               (position (enemyStore staleTargetGame target)))
                            * playerBulletSpeed exampleConfig\<rparr>
               | None \<Rightarrow> velocity b' = velocity b)"
    by (simp add: Let_def)
  from bspec [OF this h]
  have "velocity (homePlayerBullet exampleConfig (enemyStore staleTargetGame)
        (playerBulletAt 100 100 \<lparr>x = 0, y = - 8\<rparr> 0))
      = \<lparr>x = x (getDirectionVector \<lparr>x = 100, y = 100\<rparr> \<lparr>x = 100, y = 100\<rparr>) * 8,
         y = y (getDirectionVector \<lparr>x = 100, y = 100\<rparr> \<lparr>x = 100, y = 100\<rparr>) * 8\<rparr>"
    unfolding Let_def v by (simp add: v)
  with h e show ?thesis by blast
qed

text \<open>
  Claim C1 as stated (a bullet whose target has been removed from the enemy array keeps
  its velocity) fails: in the game reached above the only enemy in the array is number
  1, the bullet still refers to enemy number 0 and flies with velocity (0, -8); the
  update reads the position of the removed enemy, finds the bullet at that very place
  and sets its velocity to (0, 0).
\<close>

theorem updateBullets_stale_target_counterexample:
  "enemies staleTargetGame = [1]
   \<and> map targetEnemy (playerBullets staleTargetGame) = [Some 0]
   \<and> map velocity (playerBullets staleTargetGame) = [\<lparr>x = 0, y = - 8\<rparr>]
   \<and> map velocity (playerBullets (updateBullets exampleConfig staleTargetGame))
        = [\<lparr>x = 0, y = 0\<rparr>]"
  by (simp add: updateBullets_def scenarioGame_def staleTargetGame_def exampleGame_def playerBulletAt_def
      homePlayerBullet_def getDirectionVector_def normalize_def enemyAt_def exampleConfig_def
      Let_def)

section \<open>The number of lives\<close>

lemma quiet_livesInv: "quiet g g' \<Longrightarrow> livesInv g \<Longrightarrow> livesInv g'"
  by (simp add: quiet_def livesInv_def)

lemma hitPlayerAt_livesInv: "livesInv g \<Longrightarrow> livesInv (hitPlayerAt ev i g)"
  by (auto simp: livesInv_def hitPlayerAt_def Let_def)

lemma enemyBulletsVsPlayer_livesInv: "livesInv g \<Longrightarrow> livesInv (enemyBulletsVsPlayer ev i g)"
  by (induction i arbitrary: g) (simp_all add: hitPlayerAt_livesInv)

lemma collisionLoops_livesInv:
  assumes "livesInv g"
  shows "livesInv (collisionLoops cfg ev g)"
proof -
  have "livesInv (playerBulletsVsEnemyBullets j (playerBulletsVsEnemies cfg i g))" for i j
    using quiet_collision_prefix assms by (rule quiet_livesInv)
  then show ?thesis
    by (simp add: collisionLoops_def Let_def enemyBulletsVsPlayer_livesInv)
qed

lemma checkCollisions_livesInv: "livesInv g \<Longrightarrow> livesInv (checkCollisions cfg ev g)"
  using collisionLoops_livesInv [of g cfg]
  by (auto simp: checkCollisions_def Let_def livesInv_def)

lemma gameLoop_livesInv:
  assumes "livesInv g"
  shows "livesInv (gameLoop cfg ev g)"
proof -
  have "livesInv (updateBullets cfg (updateEnemies cfg ev (updatePlayer cfg ev g)))"
    using updates_quiet assms by (rule quiet_livesInv)
  then show ?thesis
    using assms by (simp add: gameLoop_def checkCollisions_livesInv)
qed

lemma initEnemiesLoop_player_state:
  "player (initEnemiesLoop cfg ev i g) = player g \<and> state (initEnemiesLoop cfg ev i g) = state g"
proof (induction cfg ev i g rule: initEnemiesLoop.induct)
  case (1 cfg ev i g)
  show ?case
  proof (cases "i < enemyCount cfg")
    case True
    with "1.IH" [OF True refl refl refl refl] show ?thesis
      by (subst (1 2) initEnemiesLoop.simps) (simp add: Let_def)
  next
    case False
    then show ?thesis by (subst (1 2) initEnemiesLoop.simps) simp
  qed
qed

lemma initEnemies_player_state [simp]:
  "player (initEnemies cfg ev g) = player g" "state (initEnemies cfg ev g) = state g"
  by (simp_all add: initEnemies_def initEnemiesLoop_player_state)

lemma newGame_livesInv: "1 \<le> playerLives cfg \<Longrightarrow> livesInv (newGame cfg ev storage)"
  by (simp add: newGame_def livesInv_def createPlayer_def)

lemma togglePause_livesInv: "livesInv g \<Longrightarrow> livesInv (togglePause cfg ev g)"
proof -
  assume a: "livesInv g"
  have "livesInv (g\<lparr>state := Paused\<rparr>)" if "state g = Playing"
    using a that by (simp add: livesInv_def)
  moreover have "livesInv (gameLoop cfg ev (g\<lparr>state := Playing\<rparr>))" if "state g = Paused"
  proof (rule gameLoop_livesInv)
    show "livesInv (g\<lparr>state := Playing\<rparr>)" using a that by (simp add: livesInv_def)
  qed
  ultimately show ?thesis using a by (simp add: togglePause_def)
qed

lemma restart_livesInv: "1 \<le> playerLives cfg \<Longrightarrow> livesInv (restart cfg ev g)"
  unfolding restart_def Let_def
  by (rule gameLoop_livesInv) (simp add: livesInv_def createPlayer_def)

lemma start_livesInv:
  assumes "livesInv g"
  shows "livesInv (start cfg ev g)"
proof -
  have "livesInv (g\<lparr>localStorage := st, gameStartTime := t, events := es\<rparr>)" for st t es
    using assms by (simp add: livesInv_def)
  then show ?thesis
    by (simp add: start_def gameLoop_livesInv split: prod.splits)
qed

lemma step_livesInv: "1 \<le> playerLives cfg \<Longrightarrow> livesInv g \<Longrightarrow> livesInv (step cfg a g)"
proof (cases a)
  case (KeyDown k)
  assume "livesInv g" then show ?thesis using KeyDown by (simp add: livesInv_def)
next
  case (KeyUp k)
  assume "livesInv g" then show ?thesis using KeyUp by (simp add: livesInv_def)
qed (simp_all add: gameLoop_livesInv togglePause_livesInv restart_livesInv start_livesInv)

text \<open>
  Claim C2, as the code has it. With at least one configured life, in every reachable
  state other than GameOver the player has at least one life (so the number of lives is
  not negative while the game is Playing, Paused or GameClear). For the state GameOver
  nothing of the kind holds, see below.
\<close>

theorem lives_positive_unless_game_over:
  assumes "1 \<le> playerLives cfg" and "reachable cfg g" and "state g \<noteq> GameOver"
  shows "1 \<le> lives (player g)"
proof -
  from assms(2) have "livesInv g"
  proof (induction rule: reachable.induct)
    case (reachable_new ev storage)
    show ?case using assms(1) by (rule newGame_livesInv)
  next
    case (reachable_step g a)
    then show ?case using assms(1) by (simp add: step_livesInv)
  qed
  with assms(3) show ?thesis by (simp add: livesInv_def)
qed

text \<open>Claim C2, the amended statement on a new game.\<close>

theorem lives_positive_unless_game_over_witness:
  "1 \<le> playerLives exampleConfig
   \<and> reachable exampleConfig (newGame exampleConfig exampleEnv Map.empty)
   \<and> state (newGame exampleConfig exampleEnv Map.empty) \<noteq> GameOver
   \<and> 1 \<le> lives (player (newGame exampleConfig exampleEnv Map.empty))"
proof -
  have h1: "1 \<le> playerLives exampleConfig"
    by (simp add: exampleConfig_def)
  have h2: "reachable exampleConfig (newGame exampleConfig exampleEnv Map.empty)"
    by (rule reachable_new)
  have h3: "state (newGame exampleConfig exampleEnv Map.empty) \<noteq> GameOver"
    by (simp add: newGame_def)
  from lives_positive_unless_game_over [OF h1 h2 h3] h1 h2 h3 show ?thesis by blast
qed

text \<open>
  The first tick of a game under \<open>lowConfig\<close>: the enemy is moved to the lower edge of
  its region, which is where the player stands, and fires its two bullets; both overlap
  the player, who has one life.
\<close>

lemma lowGame_new:
  "newGame lowConfig lateEnv Map.empty =
     \<lparr>player = \<lparr>position = \<lparr>x = 400, y = 50\<rparr>, velocity = \<lparr>x = 0, y = 0\<rparr>, radius = 8,
                 lives = 1, lastShotTime = 0\<rparr>,
      enemyStore = (\<lambda>r. \<lparr>position = \<lparr>x = 0, y = 0\<rparr>, velocity = \<lparr>x = 0, y = 0\<rparr>, radius = 15,
                            lastShotTime = 0, targetChangeTime = 0,
                            targetPosition = \<lparr>x = 0, y = 0\<rparr>\<rparr>)
        (0 := \<lparr>position = \<lparr>x = 400, y = 100\<rparr>, velocity = \<lparr>x = 0, y = 0\<rparr>, radius = 15,
                lastShotTime = 0, targetChangeTime = 5000,
                targetPosition = \<lparr>x = 400, y = 100\<rparr>\<rparr>),
      allocated = 1,
      enemies = [0],
      playerBullets = [],
      enemyBullets = [],
      state = Playing,
      score = 0,
      keys = {},
      gameStartTime = 0,
      localStorage = Map.empty,
      events = []\<rparr>"
  by (simp add: newGame_def initEnemies_def initEnemiesLoop.simps lowConfig_def lateEnv_def
      createPlayer_def Let_def)


lemma lowGame_first_tick:
  "lives (player (start lowConfig lateEnv (newGame lowConfig lateEnv Map.empty))) = - 1
   \<and> state (start lowConfig lateEnv (newGame lowConfig lateEnv Map.empty)) = GameOver
   \<and> savedScores (events (start lowConfig lateEnv (newGame lowConfig lateEnv Map.empty)))
       = [0, 0, 0]"
proof -
  define g0 where "g0 = newGame lowConfig lateEnv Map.empty"
  note g0 = g0_def [unfolded lowGame_new]
  define g1 where "g1 = g0\<lparr>localStorage := snd (saveHighScore (engineSort lateEnv) 0 Map.empty),
       gameStartTime := 5000, events := [SaveHighScore 0, StartBGM]\<rparr>"
  note g1 = g1_def [unfolded g0]
  define volley where "volley = (\<lambda>px vx.
     \<lparr>position = \<lparr>x = px, y = 50\<rparr>, velocity = \<lparr>x = vx, y = 0\<rparr>, radius = 3,
      isPlayerBullet = False, targetEnemy = None :: enemy_ref option\<rparr>)"
  have s: "start lowConfig lateEnv g0 = gameLoop lowConfig lateEnv g1"
    by (simp add: start_def g1_def lateEnv_def split: prod.splits) (simp add: g0)
  have pl: "state g1 = Playing"
    by (simp add: g1)
  have u1: "updatePlayer lowConfig lateEnv g1 = g1"
    by (simp add: g1 updatePlayer_def clamp_def lowConfig_def)
  define g2 where "g2 = updateEnemies lowConfig lateEnv g1"
  have u2: "enemyBullets g2 = [volley 400 1, volley 400 (- 1)]"
    "playerBullets g2 = []" "player g2 = player g1" "state g2 = Playing" "enemies g2 = [0]"
    "score g2 = 0" "events g2 = [SaveHighScore 0, StartBGM]"
    by (simp_all add: g2_def g1 updateEnemies_def updateEnemy_def shootEnemyBullets_def
        shootEnemyBulletsLoop.simps getDirectionVector_def normalize_def clamp_def
        lowConfig_def lateEnv_def volley_def Let_def)
  define g3 where "g3 = updateBullets lowConfig g2"
  have u3: "enemyBullets g3 = [volley 401 1, volley 399 (- 1)]"
    "playerBullets g3 = []" "player g3 = player g1" "state g3 = Playing" "enemies g3 = [0]"
    "score g3 = 0" "events g3 = [SaveHighScore 0, StartBGM]"
    by (simp_all add: g3_def updateBullets_def u2 moveEnemyBullet_def volley_def lowConfig_def)
  define g4 where "g4 = checkCollisions lowConfig lateEnv g3"
  have c1: "playerBulletsVsEnemies lowConfig (length (playerBullets g3)) g3 = g3"
    by (simp add: u3)
  have c2: "playerBulletsVsEnemyBullets (length (playerBullets g3)) g3 = g3"
    by (simp add: u3)
  have u4: "lives (player g4) = - 1 \<and> state g4 = GameOver
      \<and> savedScores (events g4) = [0, 0, 0]"
    by (simp add: g4_def checkCollisions_def collisionLoops_def c1 c2 Let_def)
       (simp add: u3 g1 hitPlayerAt_def checkCollision_def distance_def splice1_def
          volley_def gameOver_def Let_def split: prod.splits)
  have "gameLoop lowConfig lateEnv g1 = g4"
    using pl by (simp add: gameLoop_def u1 g4_def g3_def g2_def)
  with u4 s show ?thesis by (simp add: g0_def)
qed

text \<open>
  Claim C2 as stated (the number of lives is never negative in a reachable state) fails:
  starting a new game under \<open>lowConfig\<close> leads to a state with -1 lives. Collision
  resolution goes on after the first hit has ended the game, and the second bullet
  takes a life as well.
\<close>

theorem lives_negative_counterexample:
  "reachable lowConfig (step lowConfig (Start lateEnv) (newGame lowConfig lateEnv Map.empty))
   \<and> lives (player (step lowConfig (Start lateEnv) (newGame lowConfig lateEnv Map.empty))) = - 1
   \<and> \<not> 0 \<le> lives (player (step lowConfig (Start lateEnv) (newGame lowConfig lateEnv Map.empty)))"
proof -
  have "reachable lowConfig (newGame lowConfig lateEnv Map.empty)"
    by (rule reachable_new)
  then have "reachable lowConfig
      (step lowConfig (Start lateEnv) (newGame lowConfig lateEnv Map.empty))"
    by (rule reachable_step)
  with lowGame_first_tick show ?thesis by simp
qed

end
